theory Spec2Isabelle
  imports
    Complex_Main
    "HOL-Library.Sublist"
    "HOL-Library.Multiset"
    "HOL-Library.Char_ord"
    "HOL-Library.List_Lexorder"
begin

section \<open>Shared helpers\<close>

text \<open>
  Python's \<open>next((x for x in xs if p(x)), None)\<close>: the position of the first element
  that satisfies the predicate, or \<open>None\<close>. The position is kept because the callers go on
  to mutate the object found, which is the list's own element (no copy is made).
\<close>

fun find_first :: "('a \<Rightarrow> bool) \<Rightarrow> 'a list \<Rightarrow> nat option" where
  "find_first p [] = None"
| "find_first p (x # xs) =
     (if p x then Some 0 else map_option Suc (find_first p xs))"

section \<open>step5\_human\_in\_loop.py: the approval workflow\<close>

datatype DecisionStatus = PENDING_APPROVAL | APPROVED | REJECTED

text \<open>
  One entry of \<open>approval_log\<close>: the dict built by \<open>create_approval_request\<close>. The four
  human-decision keys start as \<open>None\<close>.
\<close>

record approval =
  case_id :: string
  ai_recommendation :: string
  ai_risk_score :: real
  ai_explanation :: string
  status :: DecisionStatus
  created_at :: string
  human_decision :: "string option"
  officer_id :: "string option"
  officer_notes :: "string option"
  approved_at :: "string option"

text \<open>The dict printed by \<open>_log_approval\<close>.\<close>

record audit_log =
  audit_timestamp :: string
  audit_case_id :: string
  audit_officer_id :: "string option"
  audit_ai_recommendation :: string
  audit_ai_risk_score :: real
  audit_human_decision :: "string option"
  audit_officer_notes :: "string option"
  decision_alignment :: string

text \<open>
  The workflow object: its \<open>approval_log\<close> list, and the lines it has printed
  (\<open>[AUDIT LOG] ...\<close>), oldest first.
\<close>

record ApprovalWorkflow =
  approval_log :: "approval list"
  printed :: "audit_log list"

text \<open>
  The three \<open>ValueError\<close>s of \<open>process_human_approval\<close>, told apart by their message:
  "Approval request not found for case: ...", "Case ... already processed. Status: ..."
  and "Decision must be 'APPROVE' or 'REJECT'".
\<close>

datatype ValueError =
  ApprovalNotFound string
| AlreadyProcessed string DecisionStatus
| InvalidDecision

definition init_workflow :: ApprovalWorkflow where
  "init_workflow = \<lparr>approval_log = [], printed = []\<rparr>"

text \<open>
  Every operation returns the workflow as it is left behind together with what the call
  returned or raised (\<open>Inl\<close>), so that a mutation made before a raise would be visible.
  \<open>datetime.now().isoformat()\<close> is an input of each call.
\<close>

definition create_approval_request ::
  "ApprovalWorkflow \<Rightarrow> string \<Rightarrow> string \<Rightarrow> real \<Rightarrow> string \<Rightarrow> string
     \<Rightarrow> ApprovalWorkflow \<times> (ValueError + approval)" where
  "create_approval_request self cid rec score expl now =
     (let approval_request =
        \<lparr>case_id = cid,
         ai_recommendation = rec,
         ai_risk_score = score,
         ai_explanation = expl,
         status = PENDING_APPROVAL,
         created_at = now,
         human_decision = None,
         officer_id = None,
         officer_notes = None,
         approved_at = None\<rparr>
      in (self\<lparr>approval_log := approval_log self @ [approval_request]\<rparr>,
          Inr approval_request))"

definition check_decision_alignment :: "approval \<Rightarrow> string" where
  "check_decision_alignment a =
     (let ai_rec = ai_recommendation a; human_dec = human_decision a
      in if ai_rec = ''URGENT_REVIEW'' \<and> human_dec = Some ''APPROVE'' then ''OVERRIDE''
         else if ai_rec = ''ROUTINE_REVIEW'' \<and> human_dec = Some ''REJECT'' then ''OVERRIDE''
         else ''ALIGNED'')"

definition log_approval :: "ApprovalWorkflow \<Rightarrow> approval \<Rightarrow> string \<Rightarrow> ApprovalWorkflow" where
  "log_approval self a now =
     self\<lparr>printed := printed self @
       [\<lparr>audit_timestamp = now,
         audit_case_id = case_id a,
         audit_officer_id = officer_id a,
         audit_ai_recommendation = ai_recommendation a,
         audit_ai_risk_score = ai_risk_score a,
         audit_human_decision = human_decision a,
         audit_officer_notes = officer_notes a,
         decision_alignment = check_decision_alignment a\<rparr>]\<rparr>"

text \<open>
  \<open>process_human_approval\<close>: the record found is the first one with the case id; the
  three checks come in the source's order, before any assignment; the five assignments
  then change that record in place, and \<open>_log_approval\<close> prints the audit line.
  \<open>now_approved\<close> and \<open>now_audit\<close> are the two clock readings.
\<close>

definition process_human_approval ::
  "ApprovalWorkflow \<Rightarrow> string \<Rightarrow> string \<Rightarrow> string \<Rightarrow> string option \<Rightarrow> string \<Rightarrow> string
     \<Rightarrow> ApprovalWorkflow \<times> (ValueError + approval)" where
  "process_human_approval self cid oid decision notes now_approved now_audit =
     (case find_first (\<lambda>a. case_id a = cid) (approval_log self) of
        None \<Rightarrow> (self, Inl (ApprovalNotFound cid))
      | Some i \<Rightarrow>
          (let a = approval_log self ! i in
           if status a \<noteq> PENDING_APPROVAL then (self, Inl (AlreadyProcessed cid (status a)))
           else if decision \<notin> set [''APPROVE'', ''REJECT''] then (self, Inl InvalidDecision)
           else
             (let a1 = a\<lparr>human_decision := Some decision\<rparr>;
                  a2 = a1\<lparr>officer_id := Some oid\<rparr>;
                  a3 = a2\<lparr>officer_notes := notes\<rparr>;
                  a4 = a3\<lparr>status := (if decision = ''APPROVE'' then APPROVED else REJECTED)\<rparr>;
                  a5 = a4\<lparr>approved_at := Some now_approved\<rparr>;
                  self' = self\<lparr>approval_log := (approval_log self)[i := a5]\<rparr>
              in (log_approval self' a5 now_audit, Inr a5))))"

definition get_pending_approvals :: "ApprovalWorkflow \<Rightarrow> approval list" where
  "get_pending_approvals self = [a \<leftarrow> approval_log self. status a = PENDING_APPROVAL]"

text \<open>\<open>get_approval_history\<close>: an empty or absent case id is falsy and selects the whole log.\<close>

definition get_approval_history :: "ApprovalWorkflow \<Rightarrow> string option \<Rightarrow> approval list" where
  "get_approval_history self cid =
     (case cid of
        None \<Rightarrow> approval_log self
      | Some c \<Rightarrow> if c = [] then approval_log self
                  else [a \<leftarrow> approval_log self. case_id a = c])"

section \<open>Rendering numbers\<close>

text \<open>
  Python's \<open>str(n)\<close> for a natural number (the f-string \<open>{len(cases_db)}\<close>) and for an
  integer (\<open>{int(risk_score)}\<close>), and \<open>int(x)\<close> on a number, which rounds towards zero.
\<close>

definition digit_char :: "nat \<Rightarrow> char" where
  "digit_char d = ''0123456789'' ! (d mod 10)"

fun str_nat :: "nat \<Rightarrow> string" where
  "str_nat n = (if n < 10 then [digit_char n] else str_nat (n div 10) @ [digit_char (n mod 10)])"

declare str_nat.simps [simp del]

definition str_int :: "int \<Rightarrow> string" where
  "str_int i = (if i < 0 then CHR ''-'' # str_nat (nat (- i)) else str_nat (nat i))"

definition py_int :: "real \<Rightarrow> int" where
  "py_int x = (if 0 \<le> x then \<lfloor>x\<rfloor> else \<lceil>x\<rceil>)"

text \<open>
  A Python \<open>float\<close>: a finite number, an infinity or NaN. \<open>x >= c\<close> is false for NaN;
  \<open>int(x)\<close> raises \<open>ValueError\<close> for NaN and \<open>OverflowError\<close> for an infinity (\<open>Inl\<close>
  with the exception's message).
\<close>

datatype pyfloat = Finite real | PosInf | NegInf | NaN

fun float_ge :: "pyfloat \<Rightarrow> real \<Rightarrow> bool" where
  "float_ge (Finite x) c = (c \<le> x)"
| "float_ge PosInf c = True"
| "float_ge NegInf c = False"
| "float_ge NaN c = False"

fun int_float :: "pyfloat \<Rightarrow> string + int" where
  "int_float (Finite x) = Inr (py_int x)"
| "int_float NaN = Inl ''cannot convert float NaN to integer''"
| "int_float PosInf = Inl ''cannot convert float infinity to integer''"
| "int_float NegInf = Inl ''cannot convert float infinity to integer''"

definition digit_val :: "char \<Rightarrow> nat" where
  "digit_val c = length (takeWhile (\<lambda>d. d \<noteq> c) ''0123456789'')"

definition nat_of_digits :: "string \<Rightarrow> nat" where
  "nat_of_digits ds = foldl (\<lambda>acc c. 10 * acc + digit_val c) 0 ds"

text \<open>Truthiness of an optional string: \<open>None\<close> and the empty string are falsy.\<close>

definition truthy :: "string option \<Rightarrow> bool" where
  "truthy s = (case s of None \<Rightarrow> False | Some v \<Rightarrow> v \<noteq> [])"

section \<open>backend/models.py: the risk model wrapper\<close>

text \<open>The request body of \<open>POST /analyze_case\<close>, one row of the data frame.\<close>

record CitizenCase =
  citizen_id :: string
  income :: real
  last_document_update_months :: real
  scheme_type :: string
  past_benefit_interruptions :: int

text \<open>
  The two scikit-learn estimators are not part of the repository; their \<open>predict\<close> is a
  parameter: from a feature matrix to one output per row, or a raised exception (its
  message). Numbers are modelled as reals: the clamp compares and selects, it does not
  round.
\<close>

type_synonym 'a estimator = "real list list \<Rightarrow> string + 'a list"

record WelfareRiskModel =
  classifier_predict :: "string estimator"
  feature_importances :: "real list"
  regressor_predict :: "real estimator"
  label_encoder :: "string list"
  feature_names :: "string list option"
  is_trained :: bool

text \<open>
  \<open>LabelEncoder.fit_transform\<close>: the classes are the sorted distinct values of the
  column given, and each value is replaced by its position among them. The classes are
  recomputed from the column of this very call.
\<close>

definition fit_transform :: "string list \<Rightarrow> string list \<times> nat list" where
  "fit_transform ys =
     (let classes = sort (remdups ys)
      in (classes, map (\<lambda>y. length (takeWhile (\<lambda>c. c \<noteq> y) classes)) ys))"

definition features :: "string list" where
  "features = [''income'', ''last_document_update_months'', ''scheme_type_encoded'',
               ''past_benefit_interruptions'']"

text \<open>
  \<open>prepare_features\<close>: the matrix has the four feature columns in the order of
  \<open>features\<close>; the third is the scheme type as encoded by this call. The integer columns
  become floating-point numbers, which is exact for the validated range of interruptions.
\<close>

definition prepare_features ::
  "WelfareRiskModel \<Rightarrow> CitizenCase list \<Rightarrow> WelfareRiskModel \<times> real list list" where
  "prepare_features self df =
     (let (classes, scheme_type_encoded) = fit_transform (map scheme_type df);
          X = map (\<lambda>(row, enc).
                [income row, last_document_update_months row, real enc,
                 real_of_int (past_benefit_interruptions row)])
              (zip df scheme_type_encoded)
      in (self\<lparr>label_encoder := classes, feature_names := Some features\<rparr>, X))"

text \<open>\<open>np.clip(a, lo, hi)\<close> on one element.\<close>

definition np_clip :: "real \<Rightarrow> real \<Rightarrow> real \<Rightarrow> real" where
  "np_clip lo hi x = min (max x lo) hi"

definition predict_risk ::
  "WelfareRiskModel \<Rightarrow> real list list \<Rightarrow> string + (string list \<times> real list \<times> real list)" where
  "predict_risk self X =
     (if \<not> is_trained self then Inl ''Model must be trained before prediction!''
      else
        (case classifier_predict self X of
           Inl e \<Rightarrow> Inl e
         | Inr risk_levels \<Rightarrow>
             (case regressor_predict self X of
                Inl e \<Rightarrow> Inl e
              | Inr raw_scores \<Rightarrow>
                  (let risk_scores = map (np_clip 0 100) raw_scores
                   in Inr (risk_levels, risk_scores, feature_importances self)))))"

text \<open>
  \<open>get_model_reasons\<close>: the dict from feature name to value and importance, as the list
  of its items in insertion order; \<open>zip\<close> stops at the shortest of its three arguments.
  \<open>X[0]\<close> raises on an empty matrix, and \<open>zip\<close> on \<open>feature_names = None\<close>.
\<close>

definition get_model_reasons ::
  "WelfareRiskModel \<Rightarrow> real list list \<Rightarrow> string list option
     \<Rightarrow> string + (string \<times> real \<times> real) list" where
  "get_model_reasons self X names =
     (if \<not> is_trained self then Inr []
      else
        (case X of
           [] \<Rightarrow> Inl ''index 0 is out of bounds for axis 0 with size 0''
         | x0 # _ \<Rightarrow>
             (case names of
                None \<Rightarrow> Inl ''zip argument #1 must support iteration''
              | Some ns \<Rightarrow> Inr (zip ns (zip x0 (feature_importances self))))))"

section \<open>backend/explanation.py: the explanation engine\<close>

text \<open>
  The values interpolated into the prompt of \<open>create_explanation_prompt\<close>. The fixed
  wording and the number formats are left out: the prompt is read by the text-generation
  service only.
\<close>

record prompt =
  prompt_risk_score :: pyfloat
  prompt_risk_level :: string
  prompt_income :: real
  prompt_last_document_update_months :: real
  prompt_scheme_type :: string
  prompt_past_benefit_interruptions :: int

text \<open>
  The text-generation client is a parameter: given the deployment name and the prompt,
  \<open>chat.completions.create\<close> followed by \<open>choices[0].message.content.strip()\<close> yields the
  text or raises (\<open>Inl\<close>, with the exception's message).
\<close>

type_synonym AzureOpenAI = "string \<Rightarrow> prompt \<Rightarrow> string + string"

record ExplanationEngine =
  client :: "AzureOpenAI option"
  deployment_name :: "string option"

text \<open>
  \<open>__init__\<close>: whether the SDK could be imported, the three environment variables, and
  the client's constructor (which may raise) are the inputs.
\<close>

definition ExplanationEngine_init ::
  "bool \<Rightarrow> string option \<Rightarrow> string option \<Rightarrow> string option
     \<Rightarrow> (string \<Rightarrow> string \<Rightarrow> string + AzureOpenAI) \<Rightarrow> ExplanationEngine" where
  "ExplanationEngine_init AZURE_OPENAI_AVAILABLE endpoint api_key deployment_env AzureOpenAI =
     (let self = \<lparr>client = None, deployment_name = None\<rparr> in
      if AZURE_OPENAI_AVAILABLE then
        (let self = self\<lparr>deployment_name :=
                     Some (case deployment_env of None \<Rightarrow> ''gpt-4'' | Some d \<Rightarrow> d)\<rparr>
         in if truthy endpoint \<and> truthy api_key then
              (case AzureOpenAI (the api_key) (the endpoint) of
                 Inr c \<Rightarrow> self\<lparr>client := Some c\<rparr>
               | Inl e \<Rightarrow> self\<lparr>client := None\<rparr>)
            else self)
      else self)"

definition create_explanation_prompt ::
  "pyfloat \<Rightarrow> string \<Rightarrow> (string \<times> real \<times> real) list \<Rightarrow> CitizenCase \<Rightarrow> prompt" where
  "create_explanation_prompt score level model_reasons citizen_data =
     \<lparr>prompt_risk_score = score,
      prompt_risk_level = level,
      prompt_income = income citizen_data,
      prompt_last_document_update_months = last_document_update_months citizen_data,
      prompt_scheme_type = scheme_type citizen_data,
      prompt_past_benefit_interruptions = past_benefit_interruptions citizen_data\<rparr>"

text \<open>
  \<open>_generate_mock_explanation\<close>: each of the three messages interpolates
  \<open>int(risk_score)\<close>, so the call raises where that conversion does.
\<close>

definition generate_mock_explanation :: "pyfloat \<Rightarrow> string \<Rightarrow> string + string" where
  "generate_mock_explanation score level =
     (if float_ge score 60 then
        (case int_float score of
           Inl e \<Rightarrow> Inl e
         | Inr n \<Rightarrow> Inr (''Your welfare case shows a high risk score ('' @ str_int n @
             ''). Please update your documentation within 30 days. A case officer will review your file and contact you within 15 business days.''))
      else if float_ge score 30 then
        (case int_float score of
           Inl e \<Rightarrow> Inl e
         | Inr n \<Rightarrow> Inr (''Your case shows a moderate risk score ('' @ str_int n @
             ''). Please verify your income information is up to date. A case officer will review your application within 10 business days.''))
      else
        (case int_float score of
           Inl e \<Rightarrow> Inl e
         | Inr n \<Rightarrow> Inr (''Your case shows a low risk score ('' @ str_int n @
             ''). Your application will proceed to final review. You should receive a decision within 5-7 business days.'')))"

text \<open>The dict returned by \<open>generate_explanation\<close>.\<close>

record explanation_result =
  explanation :: string
  recommended_action :: string
  action_description :: string
  risk_score :: pyfloat
  risk_level :: string

text \<open>
  \<open>generate_explanation\<close>. The \<open>try\<close> block holds the prompt and the client call; its
  \<open>except Exception\<close> handler takes the mock explanation, and so does the branch without
  a client. Both calls of \<open>_generate_mock_explanation\<close> stand outside the \<open>try\<close>: what
  they raise leaves the function (\<open>Inl\<close>).
\<close>

definition generate_explanation ::
  "ExplanationEngine \<Rightarrow> pyfloat \<Rightarrow> string \<Rightarrow> (string \<times> real \<times> real) list \<Rightarrow> CitizenCase
     \<Rightarrow> string + explanation_result" where
  "generate_explanation self score level model_reasons citizen_data =
     (case
        (case client self of
           Some c \<Rightarrow>
             if truthy (deployment_name self) then
               (case c (the (deployment_name self))
                       (create_explanation_prompt score level model_reasons citizen_data) of
                  Inr text \<Rightarrow> Inr text
                | Inl e \<Rightarrow> generate_mock_explanation score level)
             else generate_mock_explanation score level
         | None \<Rightarrow> generate_mock_explanation score level) of
        Inl e \<Rightarrow> Inl e
      | Inr explanation_text \<Rightarrow>
          (let (action, description) =
             (if level = ''high'' then
                (''URGENT_REVIEW'', ''Case requires immediate officer review and citizen contact'')
              else if level = ''medium'' then
                (''STANDARD_REVIEW'',
                 ''Case requires standard officer review and documentation update request'')
              else
                (''ROUTINE_REVIEW'', ''Case can proceed with routine officer verification''))
           in Inr \<lparr>explanation = explanation_text,
                   recommended_action = action,
                   action_description = description,
                   risk_score = score,
                   risk_level = level\<rparr>))"

section \<open>backend/app.py: the HTTP handlers\<close>

text \<open>
  An entry of \<open>cases_db\<close>: the dict of a \<open>CaseAnalysisResponse\<close>, to which
  \<open>approve_case\<close> later adds the keys \<open>officer_id\<close>, \<open>officer_notes\<close> and
  \<open>approval_timestamp\<close> (\<open>None\<close> while the key is absent). The status is a plain string.
\<close>

record CaseAnalysisResponse =
  case_id :: string
  citizen_id :: string
  risk_score :: real
  risk_level :: string
  explanation :: string
  recommended_action :: string
  action_description :: string
  model_reasons :: "(string \<times> real \<times> real) list"
  timestamp :: string
  status :: string
  officer_id :: "string option"
  officer_notes :: "string option"
  approval_timestamp :: "string option"

record ApprovalRequest =
  case_id :: string
  officer_id :: string
  decision :: string
  officer_notes :: "string option"

record ApprovalResponse =
  case_id :: string
  decision :: string
  officer_id :: string
  timestamp :: string
  officer_notes :: "string option"

text \<open>An entry of \<open>approvals_db\<close>.\<close>

record approval_record =
  case_id :: string
  officer_id :: string
  decision :: string
  officer_notes :: "string option"
  timestamp :: string
  ai_recommendation :: string
  ai_risk_score :: real

text \<open>
  What a handler can answer instead of its response: an \<open>HTTPException\<close> with its status
  code and detail, or the framework's rejection of a body that fails the declared field
  constraints (status 422), which happens before the handler's body runs.
\<close>

datatype http_error = HTTPException nat string | RequestValidationError

text \<open>The module's globals.\<close>

record app_state =
  risk_model :: "WelfareRiskModel option"
  explanation_engine :: "ExplanationEngine option"
  cases_db :: "CaseAnalysisResponse list"
  approvals_db :: "approval_record list"

text \<open>The field constraints of the two request models.\<close>

definition valid_CitizenCase :: "CitizenCase \<Rightarrow> bool" where
  "valid_CitizenCase c \<longleftrightarrow>
     income c > 0 \<and> last_document_update_months c \<ge> 0 \<and>
     scheme_type c \<in> set [''pension'', ''subsidy'', ''ration''] \<and>
     0 \<le> past_benefit_interruptions c \<and> past_benefit_interruptions c \<le> 10"

definition valid_ApprovalRequest :: "ApprovalRequest \<Rightarrow> bool" where
  "valid_ApprovalRequest r \<longleftrightarrow> ApprovalRequest.decision r \<in> set [''APPROVE'', ''REJECT'']"

text \<open>
  \<open>analyze_case\<close>. \<open>now_id\<close> is \<open>datetime.now().strftime('%Y%m%d%H%M%S')\<close> and
  \<open>now_iso\<close> is \<open>datetime.now().isoformat()\<close>. Whatever the \<open>try\<close> block raises
  becomes a 500; the label encoder refitted by \<open>prepare_features\<close> stays refitted.
\<close>

definition analyze_case ::
  "app_state \<Rightarrow> CitizenCase \<Rightarrow> string \<Rightarrow> string
     \<Rightarrow> app_state \<times> (http_error + CaseAnalysisResponse)" where
  "analyze_case st case_data now_id now_iso =
     (if \<not> valid_CitizenCase case_data then (st, Inl RequestValidationError)
      else
        (case (risk_model st, explanation_engine st) of
           (Some rm, Some ee) \<Rightarrow>
             (let (rm', X) = prepare_features rm [case_data];
                  st' = st\<lparr>risk_model := Some rm'\<rparr>;
                  fail = (\<lambda>e. (st', Inl (HTTPException 500 (''Error analyzing case: '' @ e))))
              in case predict_risk rm' X of
                   Inl e \<Rightarrow> fail e
                 | Inr (risk_levels, risk_scores, _) \<Rightarrow>
                     (case (risk_levels, risk_scores) of
                        (level # _, score # _) \<Rightarrow>
                          (case get_model_reasons rm' X (feature_names rm') of
                             Inl e \<Rightarrow> fail e
                           | Inr reasons \<Rightarrow>
                               (case generate_explanation ee (Finite score) level reasons case_data of
                                  Inl e \<Rightarrow> fail e
                                | Inr explanation_result \<Rightarrow>
                                    (let response =
                                       \<lparr>CaseAnalysisResponse.case_id =
                                          ''CASE_'' @ now_id @ ''_'' @ str_nat (length (cases_db st')),
                                        citizen_id = CitizenCase.citizen_id case_data,
                                        risk_score = score,
                                        risk_level = level,
                                        explanation = explanation_result.explanation explanation_result,
                                        recommended_action =
                                          explanation_result.recommended_action explanation_result,
                                        action_description =
                                          explanation_result.action_description explanation_result,
                                        model_reasons = reasons,
                                        timestamp = now_iso,
                                        status = ''PENDING_APPROVAL'',
                                        officer_id = None,
                                        officer_notes = None,
                                        approval_timestamp = None\<rparr>
                                     in (st'\<lparr>cases_db := cases_db st' @ [response]\<rparr>,
                                         Inr response))))
                      | _ \<Rightarrow> fail ''index 0 is out of bounds for axis 0 with size 0''))
         | _ \<Rightarrow> (st, Inl (HTTPException 503 ''Models not loaded''))))"

text \<open>
  \<open>get_cases\<close> as declared in backend/app.py and step4\_backend\_api.py: two optional
  parameters; \<open>if status:\<close> lets an empty string through as no filter.
\<close>

definition get_cases :: "app_state \<Rightarrow> string option \<Rightarrow> string option \<Rightarrow> CaseAnalysisResponse list" where
  "get_cases st status_q risk_level_q =
     (let filtered_cases = cases_db st;
          filtered_cases =
            (if truthy status_q
             then [c \<leftarrow> filtered_cases. CaseAnalysisResponse.status c = the status_q]
             else filtered_cases);
          filtered_cases =
            (if truthy risk_level_q
             then [c \<leftarrow> filtered_cases. CaseAnalysisResponse.risk_level c = the risk_level_q]
             else filtered_cases)
      in filtered_cases)"

text \<open>
  The route \<open>GET /cases\<close>: the query is a map from parameter names to values; the
  framework hands the handler the parameters it declares, by name, and drops the others.
\<close>

definition GET_cases :: "app_state \<Rightarrow> (string \<rightharpoonup> string) \<Rightarrow> CaseAnalysisResponse list" where
  "GET_cases st query = get_cases st (query ''status'') (query ''risk_level'')"

text \<open>
  \<open>approve_case\<close>. The case found is the first one with the id; the four assignments
  change it in place; \<open>now1\<close> and \<open>now2\<close> are the two clock readings.
\<close>

definition approve_case ::
  "app_state \<Rightarrow> ApprovalRequest \<Rightarrow> string \<Rightarrow> string
     \<Rightarrow> app_state \<times> (http_error + ApprovalResponse)" where
  "approve_case st request now1 now2 =
     (if \<not> valid_ApprovalRequest request then (st, Inl RequestValidationError)
      else
        (case find_first (\<lambda>c. CaseAnalysisResponse.case_id c = ApprovalRequest.case_id request)
                (cases_db st) of
           None \<Rightarrow> (st, Inl (HTTPException 404 ''Case not found''))
         | Some i \<Rightarrow>
             (let c = cases_db st ! i in
              if CaseAnalysisResponse.status c \<noteq> ''PENDING_APPROVAL'' then
                (st, Inl (HTTPException 400
                   (''Case already processed. Current status: '' @ CaseAnalysisResponse.status c)))
              else
                (let c1 = c\<lparr>CaseAnalysisResponse.status := ApprovalRequest.decision request\<rparr>;
                     c2 = c1\<lparr>CaseAnalysisResponse.officer_id :=
                               Some (ApprovalRequest.officer_id request)\<rparr>;
                     c3 = c2\<lparr>CaseAnalysisResponse.officer_notes :=
                               ApprovalRequest.officer_notes request\<rparr>;
                     c4 = c3\<lparr>approval_timestamp := Some now1\<rparr>;
                     approval_record =
                       \<lparr>approval_record.case_id = ApprovalRequest.case_id request,
                        officer_id = ApprovalRequest.officer_id request,
                        decision = ApprovalRequest.decision request,
                        officer_notes = ApprovalRequest.officer_notes request,
                        timestamp = now2,
                        ai_recommendation = CaseAnalysisResponse.recommended_action c4,
                        ai_risk_score = CaseAnalysisResponse.risk_score c4\<rparr>;
                     st' = st\<lparr>cases_db := (cases_db st)[i := c4],
                              approvals_db := approvals_db st @ [approval_record]\<rparr>
                 in (st',
                     Inr \<lparr>ApprovalResponse.case_id = ApprovalRequest.case_id request,
                          decision = ApprovalRequest.decision request,
                          officer_id = ApprovalRequest.officer_id request,
                          timestamp = approval_record.timestamp approval_record,
                          officer_notes = ApprovalRequest.officer_notes request\<rparr>)))))"

text \<open>\<open>get_approvals\<close> returns the audit list as it is.\<close>

definition get_approvals :: "app_state \<Rightarrow> approval_record list" where
  "get_approvals st = approvals_db st"

text \<open>
  The states of the running service: it starts with both stores empty, and each request
  to \<open>POST /analyze_case\<close> or \<open>POST /approve_case\<close> leaves the state its handler returns.
\<close>

inductive reachable :: "app_state \<Rightarrow> bool" where
  start: "cases_db st = [] \<Longrightarrow> approvals_db st = [] \<Longrightarrow> reachable st"
| analyze: "reachable st \<Longrightarrow> reachable (fst (analyze_case st case_data now_id now_iso))"
| approve: "reachable st \<Longrightarrow> reachable (fst (approve_case st request now1 now2))"

section \<open>backend/main.py: the listing with a limit\<close>

text \<open>
  Python's \<open>xs[:stop]\<close>: everything for \<open>None\<close>, the first \<open>stop\<close> elements for a
  non-negative \<open>stop\<close>, and all but the last \<open>-stop\<close> for a negative one.
\<close>

definition py_slice_to :: "'a list \<Rightarrow> int option \<Rightarrow> 'a list" where
  "py_slice_to xs stop =
     (case stop of
        None \<Rightarrow> xs
      | Some n \<Rightarrow> if 0 \<le> n then take (nat n) xs else take (length xs - nat (- n)) xs)"

text \<open>
  \<open>sorted(cs, key=timestamp, reverse=True)\<close>: descending by timestamp; cases with
  equal timestamps keep their relative order, which is what sorting the reversed list
  stably and reversing the result gives.
\<close>

definition sorted_newest_first :: "CaseAnalysisResponse list \<Rightarrow> CaseAnalysisResponse list" where
  "sorted_newest_first cs = rev (sort_key CaseAnalysisResponse.timestamp (rev cs))"

text \<open>
  \<open>get_cases\<close> of backend/main.py, the one variant of the handler that declares a
  \<open>limit\<close> parameter (100 when the query carries none).
\<close>

definition main_get_cases ::
  "app_state \<Rightarrow> string option \<Rightarrow> string option \<Rightarrow> int option \<Rightarrow> CaseAnalysisResponse list" where
  "main_get_cases st status_q risk_level_q limit_q =
     (let filtered_cases = cases_db st;
          filtered_cases =
            (if truthy status_q
             then [c \<leftarrow> filtered_cases. CaseAnalysisResponse.status c = the status_q]
             else filtered_cases);
          filtered_cases =
            (if truthy risk_level_q
             then [c \<leftarrow> filtered_cases. CaseAnalysisResponse.risk_level c = the risk_level_q]
             else filtered_cases)
      in py_slice_to (sorted_newest_first filtered_cases) limit_q)"

section \<open>Notions used in the statements\<close>

text \<open>
  A case passes the two optional filters of \<open>GET /cases\<close>; an absent or empty
  filter lets every case through.
\<close>

definition matches :: "string option \<Rightarrow> string option \<Rightarrow> CaseAnalysisResponse \<Rightarrow> bool" where
  "matches status_q risk_level_q c \<longleftrightarrow>
     (truthy status_q \<longrightarrow> CaseAnalysisResponse.status c = the status_q) \<and>
     (truthy risk_level_q \<longrightarrow> CaseAnalysisResponse.risk_level c = the risk_level_q)"

text \<open>
  The approval records of a case id, and the invariant of the two stores that the
  handlers maintain: case ids end in the position of the case, every approval record
  belongs to a stored case, and a case has no record while it is pending and one record
  afterwards.
\<close>

definition approvals_for :: "app_state \<Rightarrow> string \<Rightarrow> approval_record list" where
  "approvals_for st cid = [a \<leftarrow> approvals_db st. approval_record.case_id a = cid]"

definition store_inv :: "app_state \<Rightarrow> bool" where
  "store_inv st \<longleftrightarrow>
     (\<forall>i < length (cases_db st). \<exists>ts.
        CaseAnalysisResponse.case_id (cases_db st ! i) = ''CASE_'' @ ts @ ''_'' @ str_nat i)
   \<and> (\<forall>a \<in> set (approvals_db st). \<exists>c \<in> set (cases_db st).
        CaseAnalysisResponse.case_id c = approval_record.case_id a)
   \<and> (\<forall>c \<in> set (cases_db st).
        CaseAnalysisResponse.status c \<in> {''PENDING_APPROVAL'', ''APPROVE'', ''REJECT''}
        \<and> length (approvals_for st (CaseAnalysisResponse.case_id c)) =
            (if CaseAnalysisResponse.status c = ''PENDING_APPROVAL'' then 0 else 1))"

section \<open>Example inputs\<close>

text \<open>
  The walk-through of \<open>demonstrate_workflow\<close> (case CASE\_001, recommended for urgent
  review with score 75.5, approved by OFFICER\_123), followed by a second request; and a
  run of the service: a loaded model, an engine without the SDK, one analysed case
  (income 35000, documents 18 months old, pension, 3 interruptions) approved with the
  payload of the test script, and a second analysed case, taken from the test script.
\<close>

definition demo_workflow1 :: ApprovalWorkflow where
  "demo_workflow1 =
     fst (create_approval_request init_workflow ''CASE_001'' ''URGENT_REVIEW'' (151/2)
            ''High risk case requiring immediate review'' ''2026-01-05T10:00:00'')"

definition demo_workflow2 :: ApprovalWorkflow where
  "demo_workflow2 =
     fst (process_human_approval demo_workflow1 ''CASE_001'' ''OFFICER_123'' ''APPROVE''
            (Some ''Verified documents, case is legitimate despite high risk score'')
            ''2026-01-05T11:00:00'' ''2026-01-05T11:00:01'')"

definition demo_workflow3 :: ApprovalWorkflow where
  "demo_workflow3 =
     fst (create_approval_request demo_workflow2 ''CASE_002'' ''STANDARD_REVIEW'' 45
            ''Moderate risk case'' ''2026-01-05T12:00:00'')"

definition demo_risk_model :: WelfareRiskModel where
  "demo_risk_model =
     \<lparr>classifier_predict = (\<lambda>X. Inr (map (\<lambda>row. ''high'') X)),
      feature_importances = [2/5, 3/10, 1/10, 1/5],
      regressor_predict = (\<lambda>X. Inr (map (\<lambda>row. 151/2) X)),
      label_encoder = [''pension'', ''ration'', ''subsidy''],
      feature_names = Some features,
      is_trained = True\<rparr>"

definition demo_engine :: ExplanationEngine where
  "demo_engine = ExplanationEngine_init False None None None (\<lambda>key endpoint. Inl ''no SDK'')"


definition demo_case :: CitizenCase where
  "demo_case =
     \<lparr>CitizenCase.citizen_id = ''CIT001'', income = 35000, last_document_update_months = 18,
      scheme_type = ''pension'', past_benefit_interruptions = 3\<rparr>"

definition demo_case2 :: CitizenCase where
  "demo_case2 =
     \<lparr>CitizenCase.citizen_id = ''CIT002_MEDIUM_RISK'', income = 35000,
      last_document_update_months = 6, scheme_type = ''subsidy'',
      past_benefit_interruptions = 2\<rparr>"

definition demo_app0 :: app_state where
  "demo_app0 =
     \<lparr>risk_model = Some demo_risk_model, explanation_engine = Some demo_engine,
      cases_db = [], approvals_db = []\<rparr>"

definition demo_app1 :: app_state where
  "demo_app1 = fst (analyze_case demo_app0 demo_case ''20260105100000'' ''2026-01-05T10:00:00'')"

definition demo_request :: ApprovalRequest where
  "demo_request =
     \<lparr>ApprovalRequest.case_id = ''CASE_20260105100000_0'', officer_id = ''OFFICER_TEST_001'',
      decision = ''APPROVE'',
      officer_notes = Some ''Test approval from automated test script''\<rparr>"

definition demo_app2 :: app_state where
  "demo_app2 = fst (approve_case demo_app1 demo_request ''2026-01-05T11:00:00'' ''2026-01-05T11:00:01'')"

definition demo_app3 :: app_state where
  "demo_app3 = fst (analyze_case demo_app2 demo_case2 ''20260105120000'' ''2026-01-05T12:00:00'')"

section \<open>Facts about the helpers\<close>

lemma find_first_None: "find_first p xs = None \<longleftrightarrow> (\<forall>x \<in> set xs. \<not> p x)"
  by (induction xs) auto

lemma find_first_Some:
  "find_first p xs = Some i \<Longrightarrow> i < length xs \<and> p (xs ! i) \<and> (\<forall>j < i. \<not> p (xs ! j))"
proof (induction xs arbitrary: i)
  case Nil
  then show ?case by simp
next
  case (Cons x xs)
  show ?case
  proof (cases "p x")
    case True
    with Cons.prems show ?thesis by simp
  next
    case False
    with Cons.prems obtain k where k: "find_first p xs = Some k" "i = Suc k"
      by auto
    from Cons.IH [OF k(1)] have ih: "k < length xs" "p (xs ! k)" "\<forall>j < k. \<not> p (xs ! j)"
      by simp_all
    have "\<forall>j < Suc k. \<not> p ((x # xs) ! j)"
    proof (intro allI impI)
      fix j assume "j < Suc k"
      then show "\<not> p ((x # xs) ! j)"
        using False ih(3) by (cases j) simp_all
    qed
    with ih k show ?thesis by simp
  qed
qed

lemma find_first_update:
  "find_first p xs = Some i \<Longrightarrow> p y \<Longrightarrow> find_first p (xs[i := y]) = Some i"
proof (induction xs arbitrary: i)
  case Nil
  then show ?case by simp
next
  case (Cons x xs)
  show ?case
  proof (cases "p x")
    case True
    with Cons.prems show ?thesis by simp
  next
    case False
    with Cons.prems obtain k where k: "find_first p xs = Some k" "i = Suc k"
      by auto
    from Cons.IH [OF k(1) Cons.prems(2)] False k(2) show ?thesis by simp
  qed
qed

section \<open>Facts about number rendering\<close>

lemma digit_cases: "d < 10 \<Longrightarrow> d = 0 \<or> d = 1 \<or> d = 2 \<or> d = 3 \<or> d = 4 \<or> d = 5 \<or> d = 6 \<or> d = 7 \<or> d = 8 \<or> d = (9::nat)"
  by arith

lemma digit_val_digit_char: "d < 10 \<Longrightarrow> digit_val (digit_char d) = d"
  using digit_cases [of d] by (auto simp: digit_val_def digit_char_def)

lemma digit_char_not_underscore: "digit_char d \<noteq> CHR ''_''"
proof -
  have "d mod 10 < 10" by simp
  from digit_cases [OF this] show ?thesis
    by (auto simp: digit_char_def)
qed

lemma str_nat_no_underscore: "CHR ''_'' \<notin> set (str_nat n)"
proof (induction n rule: str_nat.induct)
  case (1 n)
  show ?case
  proof (cases "n < 10")
    case True
    then show ?thesis
      using digit_char_not_underscore [of n] by (subst str_nat.simps) auto
  next
    case False
    then show ?thesis
      using 1 digit_char_not_underscore [of "n mod 10"] by (subst str_nat.simps) auto
  qed
qed

lemma nat_of_digits_snoc: "nat_of_digits (ds @ [c]) = 10 * nat_of_digits ds + digit_val c"
  by (simp add: nat_of_digits_def)

lemma nat_of_digits_str_nat: "nat_of_digits (str_nat n) = n"
proof (induction n rule: str_nat.induct)
  case (1 n)
  show ?case
  proof (cases "n < 10")
    case True
    then have "str_nat n = [digit_char n]" by (subst str_nat.simps) simp
    then show ?thesis
      using True by (simp add: nat_of_digits_def digit_val_digit_char)
  next
    case False
    then have eq: "str_nat n = str_nat (n div 10) @ [digit_char (n mod 10)]"
      by (subst str_nat.simps) simp
    have "nat_of_digits (str_nat n) = 10 * (n div 10) + n mod 10"
      unfolding eq nat_of_digits_snoc using 1 [OF False]
      by (simp add: digit_val_digit_char)
    then show ?thesis by simp
  qed
qed

lemma str_nat_inj: "str_nat i = str_nat j \<Longrightarrow> i = j"
  by (metis nat_of_digits_str_nat)

lemma suffix_after_last_underscore:
  assumes "CHR ''_'' \<notin> set d"
  shows "rev (takeWhile (\<lambda>c. c \<noteq> CHR ''_'') (rev (a @ ''_'' @ d))) = d"
proof -
  have "rev (a @ ''_'' @ d) = rev d @ CHR ''_'' # rev a" by simp
  moreover have "takeWhile (\<lambda>c. c \<noteq> CHR ''_'') (rev d @ CHR ''_'' # rev a) = rev d"
  proof -
    have "\<forall>x \<in> set (rev d). x \<noteq> CHR ''_''" using assms by auto
    then show ?thesis by (simp add: takeWhile_tail)
  qed
  ultimately show ?thesis by simp
qed

lemma case_id_suffix_inj:
  assumes "a @ ''_'' @ str_nat i = b @ ''_'' @ str_nat j"
  shows "i = j"
proof -
  have "str_nat i = rev (takeWhile (\<lambda>c. c \<noteq> CHR ''_'') (rev (a @ ''_'' @ str_nat i)))"
    by (rule suffix_after_last_underscore [symmetric, OF str_nat_no_underscore])
  also have "\<dots> = rev (takeWhile (\<lambda>c. c \<noteq> CHR ''_'') (rev (b @ ''_'' @ str_nat j)))"
    by (simp only: assms)
  also have "\<dots> = str_nat j"
    by (rule suffix_after_last_underscore [OF str_nat_no_underscore])
  finally show ?thesis by (rule str_nat_inj)
qed

lemma str_nat_0: "str_nat 0 = ''0''"
  by (simp add: str_nat.simps digit_char_def)

lemma str_nat_1: "str_nat (Suc 0) = ''1''"
  by (simp add: str_nat.simps digit_char_def)


section \<open>Facts about the approval workflow\<close>

lemma process_error_unchanged:
  "snd (process_human_approval self cid oid dec onotes t1 t2) = Inl e \<Longrightarrow>
     fst (process_human_approval self cid oid dec onotes t1 t2) = self
      \<and> (e = ApprovalNotFound cid \<or> (\<exists>st. e = AlreadyProcessed cid st \<and> st \<noteq> PENDING_APPROVAL)
           \<or> e = InvalidDecision)"
  by (auto simp: process_human_approval_def Let_def split: option.splits if_splits)

lemma process_not_found:
  "\<forall>a \<in> set (approval_log self). approval.case_id a \<noteq> cid \<Longrightarrow>
     process_human_approval self cid oid dec onotes t1 t2 = (self, Inl (ApprovalNotFound cid))"
proof -
  assume "\<forall>a \<in> set (approval_log self). approval.case_id a \<noteq> cid"
  then have "find_first (\<lambda>a. approval.case_id a = cid) (approval_log self) = None"
    by (simp add: find_first_None)
  then show ?thesis by (simp add: process_human_approval_def)
qed

lemma process_already:
  "find_first (\<lambda>a. approval.case_id a = cid) (approval_log self) = Some i \<Longrightarrow>
   approval.status (approval_log self ! i) \<noteq> PENDING_APPROVAL \<Longrightarrow>
     process_human_approval self cid oid dec onotes t1 t2 =
          (self, Inl (AlreadyProcessed cid (approval.status (approval_log self ! i))))"
  by (simp add: process_human_approval_def)

lemma process_invalid:
  "dec \<noteq> ''APPROVE'' \<Longrightarrow> dec \<noteq> ''REJECT'' \<Longrightarrow>
        isl (snd (process_human_approval self cid oid dec onotes t1 t2))
        \<and> fst (process_human_approval self cid oid dec onotes t1 t2) = self"
  by (simp add: process_human_approval_def Let_def split: option.splits)

lemma process_success:
  assumes "process_human_approval self cid oid dec onotes t1 t2 = (self1, Inr r)"
  shows "\<exists>i. find_first (\<lambda>a. approval.case_id a = cid) (approval_log self) = Some i
           \<and> approval.status (approval_log self ! i) = PENDING_APPROVAL
           \<and> (dec = ''APPROVE'' \<or> dec = ''REJECT'')
           \<and> r = (approval_log self ! i)
                 \<lparr>human_decision := Some dec, approval.officer_id := Some oid,
                  approval.officer_notes := onotes,
                  approval.status := (if dec = ''APPROVE'' then APPROVED else REJECTED),
                  approved_at := Some t1\<rparr>
           \<and> approval_log self1 = (approval_log self)[i := r]"
  using assms
  by (auto simp: process_human_approval_def log_approval_def Let_def
           split: option.splits if_splits)

lemma process_second_call:
  assumes "process_human_approval self cid oid dec onotes t1 t2 = (self1, Inr r)"
  shows "process_human_approval self1 cid oid2 dec2 onotes2 t3 t4 =
           (self1, Inl (AlreadyProcessed cid (approval.status r)))
         \<and> (approval.status r = APPROVED \<or> approval.status r = REJECTED)
         \<and> human_decision r = Some dec \<and> approval.officer_id r = Some oid
         \<and> approval.officer_notes r = onotes \<and> approved_at r = Some t1
         \<and> (\<exists>i. find_first (\<lambda>a. approval.case_id a = cid) (approval_log self1) = Some i
                \<and> approval_log self1 ! i = r)"
proof -
  from process_success [OF assms] obtain i where
    i: "find_first (\<lambda>a. approval.case_id a = cid) (approval_log self) = Some i"
    and r: "r = (approval_log self ! i)
                 \<lparr>human_decision := Some dec, approval.officer_id := Some oid,
                  approval.officer_notes := onotes,
                  approval.status := (if dec = ''APPROVE'' then APPROVED else REJECTED),
                  approved_at := Some t1\<rparr>"
    and log: "approval_log self1 = (approval_log self)[i := r]"
    by blast
  from find_first_Some [OF i] have len: "i < length (approval_log self)"
    and cid: "approval.case_id (approval_log self ! i) = cid" by simp_all
  have rcid: "approval.case_id r = cid" using r cid by simp
  have ff: "find_first (\<lambda>a. approval.case_id a = cid) (approval_log self1) = Some i"
    unfolding log using i rcid by (rule find_first_update)
  have at: "approval_log self1 ! i = r" unfolding log using len by simp
  have st: "approval.status r \<noteq> PENDING_APPROVAL" using r by simp
  have "process_human_approval self1 cid oid2 dec2 onotes2 t3 t4 =
           (self1, Inl (AlreadyProcessed cid (approval.status r)))"
    using ff at st by (simp add: process_human_approval_def)
  moreover have "approval.status r = APPROVED \<or> approval.status r = REJECTED"
    using r by simp
  ultimately show ?thesis using r ff at by simp
qed

lemma demo_workflow1_log:
  "approval_log demo_workflow1 =
     [\<lparr>approval.case_id = ''CASE_001'', ai_recommendation = ''URGENT_REVIEW'',
       ai_risk_score = 151/2, ai_explanation = ''High risk case requiring immediate review'',
       status = PENDING_APPROVAL, created_at = ''2026-01-05T10:00:00'',
       human_decision = None, officer_id = None, officer_notes = None, approved_at = None\<rparr>]"
  by (simp add: demo_workflow1_def create_approval_request_def init_workflow_def Let_def)

lemma demo_first_approval:
  "\<exists>r. process_human_approval demo_workflow1 ''CASE_001'' ''OFFICER_123'' ''APPROVE''
            (Some ''Verified documents, case is legitimate despite high risk score'')
            ''2026-01-05T11:00:00'' ''2026-01-05T11:00:01'' = (demo_workflow2, Inr r)
       \<and> approval.status r = APPROVED"
  unfolding demo_workflow2_def
  by (simp add: process_human_approval_def demo_workflow1_log Let_def)

lemma demo_workflow2_log:
  "map approval.case_id (approval_log demo_workflow2) = [''CASE_001'']
   \<and> map approval.status (approval_log demo_workflow2) = [APPROVED]"
  unfolding demo_workflow2_def
  by (simp add: process_human_approval_def demo_workflow1_log log_approval_def Let_def)

lemma demo_workflow3_log:
  "map approval.case_id (approval_log demo_workflow3) = [''CASE_001'', ''CASE_002'']
   \<and> map approval.status (approval_log demo_workflow3) = [APPROVED, PENDING_APPROVAL]"
  using demo_workflow2_log
  by (simp add: demo_workflow3_def create_approval_request_def Let_def)

section \<open>Facts about the HTTP handlers\<close>

lemma approve_success:
  assumes "approve_case st req n1 n2 = (st1, Inr resp)"
  shows "\<exists>i. valid_ApprovalRequest req
           \<and> find_first (\<lambda>c. CaseAnalysisResponse.case_id c = ApprovalRequest.case_id req)
                (cases_db st) = Some i
           \<and> CaseAnalysisResponse.status (cases_db st ! i) = ''PENDING_APPROVAL''
           \<and> cases_db st1 = (cases_db st)[i := (cases_db st ! i)
                 \<lparr>CaseAnalysisResponse.status := ApprovalRequest.decision req,
                  CaseAnalysisResponse.officer_id := Some (ApprovalRequest.officer_id req),
                  CaseAnalysisResponse.officer_notes := ApprovalRequest.officer_notes req,
                  approval_timestamp := Some n1\<rparr>]
           \<and> approvals_db st1 = approvals_db st @
                 [\<lparr>approval_record.case_id = ApprovalRequest.case_id req,
                   officer_id = ApprovalRequest.officer_id req,
                   decision = ApprovalRequest.decision req,
                   officer_notes = ApprovalRequest.officer_notes req,
                   timestamp = n2,
                   ai_recommendation = CaseAnalysisResponse.recommended_action (cases_db st ! i),
                   ai_risk_score = CaseAnalysisResponse.risk_score (cases_db st ! i)\<rparr>]
           \<and> risk_model st1 = risk_model st \<and> explanation_engine st1 = explanation_engine st"
  using assms
  by (auto simp: approve_case_def Let_def split: option.splits if_splits)

lemma approve_failure:
  assumes "approve_case st req n1 n2 = (st1, Inl e)"
  shows "st1 = st"
  using assms
  by (auto simp: approve_case_def Let_def split: option.splits if_splits)

lemma approve_second_call:
  assumes "approve_case st req n1 n2 = (st1, Inr resp)"
    and "ApprovalRequest.case_id req2 = ApprovalRequest.case_id req"
  shows "(valid_ApprovalRequest req2 \<longrightarrow> approve_case st1 req2 n3 n4 =
           (st1, Inl (HTTPException 400
              (''Case already processed. Current status: '' @ ApprovalRequest.decision req))))
         \<and> isl (snd (approve_case st1 req2 n3 n4)) \<and> fst (approve_case st1 req2 n3 n4) = st1
         \<and> (\<exists>i. find_first (\<lambda>c. CaseAnalysisResponse.case_id c = ApprovalRequest.case_id req)
                  (cases_db st1) = Some i
                \<and> CaseAnalysisResponse.status (cases_db st1 ! i) = ApprovalRequest.decision req
                \<and> CaseAnalysisResponse.officer_id (cases_db st1 ! i)
                     = Some (ApprovalRequest.officer_id req)
                \<and> CaseAnalysisResponse.officer_notes (cases_db st1 ! i)
                     = ApprovalRequest.officer_notes req
                \<and> approval_timestamp (cases_db st1 ! i) = Some n1)"
proof -
  let ?p = "\<lambda>c. CaseAnalysisResponse.case_id c = ApprovalRequest.case_id req"
  from approve_success [OF assms(1)] obtain i where
    v: "valid_ApprovalRequest req"
    and i: "find_first ?p (cases_db st) = Some i"
    and db: "cases_db st1 = (cases_db st)[i := (cases_db st ! i)
                 \<lparr>CaseAnalysisResponse.status := ApprovalRequest.decision req,
                  CaseAnalysisResponse.officer_id := Some (ApprovalRequest.officer_id req),
                  CaseAnalysisResponse.officer_notes := ApprovalRequest.officer_notes req,
                  approval_timestamp := Some n1\<rparr>]"
    by blast
  define c where "c = (cases_db st ! i)
                 \<lparr>CaseAnalysisResponse.status := ApprovalRequest.decision req,
                  CaseAnalysisResponse.officer_id := Some (ApprovalRequest.officer_id req),
                  CaseAnalysisResponse.officer_notes := ApprovalRequest.officer_notes req,
                  approval_timestamp := Some n1\<rparr>"
  from find_first_Some [OF i] have len: "i < length (cases_db st)"
    and cid: "?p (cases_db st ! i)" by simp_all
  have pc: "?p c" using cid by (simp add: c_def)
  have ff: "find_first ?p (cases_db st1) = Some i"
    unfolding db c_def [symmetric] using i pc by (rule find_first_update)
  have at: "cases_db st1 ! i = c" unfolding db c_def [symmetric] using len by simp
  have dec: "ApprovalRequest.decision req \<noteq> ''PENDING_APPROVAL''"
    using v by (auto simp: valid_ApprovalRequest_def)
  have st: "CaseAnalysisResponse.status c = ApprovalRequest.decision req" by (simp add: c_def)
  have ff2: "find_first (\<lambda>c. CaseAnalysisResponse.case_id c = ApprovalRequest.case_id req2)
               (cases_db st1) = Some i"
    using ff assms(2) by simp
  have call: "approve_case st1 req2 n3 n4 =
      (if \<not> valid_ApprovalRequest req2 then (st1, Inl RequestValidationError)
       else (st1, Inl (HTTPException 400
              (''Case already processed. Current status: '' @ ApprovalRequest.decision req))))"
    using ff2 at st dec by (simp add: approve_case_def)
  show ?thesis
    using call ff at by (simp add: c_def)
qed

lemma analyze_case_effect:
  assumes "analyze_case st cd nid niso = (st1, res)"
  shows "approvals_db st1 = approvals_db st
       \<and> (cases_db st1 = cases_db st
          \<or> (\<exists>r. cases_db st1 = cases_db st @ [r]
                \<and> CaseAnalysisResponse.status r = ''PENDING_APPROVAL''
                \<and> CaseAnalysisResponse.case_id r =
                    ''CASE_'' @ nid @ ''_'' @ str_nat (length (cases_db st))))"
  using assms
  by (auto simp: analyze_case_def Let_def 
           split: option.splits if_splits sum.splits list.splits prod.splits)

lemma store_inv_cong:
  "cases_db st1 = cases_db st \<Longrightarrow> approvals_db st1 = approvals_db st \<Longrightarrow>
     store_inv st1 = store_inv st"
  by (simp add: store_inv_def approvals_for_def)

lemma store_inv_start: "cases_db st = [] \<Longrightarrow> approvals_db st = [] \<Longrightarrow> store_inv st"
  by (simp add: store_inv_def)

lemma store_inv_ids:
  assumes "store_inv st" "i < length (cases_db st)" "j < length (cases_db st)"
    and "CaseAnalysisResponse.case_id (cases_db st ! i) =
         CaseAnalysisResponse.case_id (cases_db st ! j)"
  shows "i = j"
proof -
  from assms(1,2) obtain ts where
    a: "CaseAnalysisResponse.case_id (cases_db st ! i) = ''CASE_'' @ ts @ ''_'' @ str_nat i"
    unfolding store_inv_def by blast
  from assms(1,3) obtain ts' where
    b: "CaseAnalysisResponse.case_id (cases_db st ! j) = ''CASE_'' @ ts' @ ''_'' @ str_nat j"
    unfolding store_inv_def by blast
  from a b assms(4) have "(''CASE_'' @ ts) @ ''_'' @ str_nat i = (''CASE_'' @ ts') @ ''_'' @ str_nat j"
    by (simp only: append_assoc)
  then show ?thesis by (rule case_id_suffix_inj)
qed

lemma store_inv_distinct:
  assumes "store_inv st"
  shows "distinct (map CaseAnalysisResponse.case_id (cases_db st))"
  unfolding distinct_conv_nth
  using store_inv_ids [OF assms] by auto

lemma store_inv_append:
  assumes inv: "store_inv st"
    and db: "cases_db st1 = cases_db st @ [r]"
    and ap: "approvals_db st1 = approvals_db st"
    and pend: "CaseAnalysisResponse.status r = ''PENDING_APPROVAL''"
    and rid: "CaseAnalysisResponse.case_id r =
                ''CASE_'' @ nid @ ''_'' @ str_nat (length (cases_db st))"
  shows "store_inv st1"
proof -
  let ?n = "length (cases_db st)"
  have fresh: "CaseAnalysisResponse.case_id c \<noteq> CaseAnalysisResponse.case_id r"
    if "c \<in> set (cases_db st)" for c
  proof
    assume eq: "CaseAnalysisResponse.case_id c = CaseAnalysisResponse.case_id r"
    from that obtain k where k: "k < ?n" "cases_db st ! k = c"
      by (auto simp: in_set_conv_nth)
    from inv k obtain ts where
      "CaseAnalysisResponse.case_id c = ''CASE_'' @ ts @ ''_'' @ str_nat k"
      unfolding store_inv_def by blast
    with eq rid have "(''CASE_'' @ ts) @ ''_'' @ str_nat k = (''CASE_'' @ nid) @ ''_'' @ str_nat ?n"
      by (simp only: append_assoc)
    then have "k = ?n" by (rule case_id_suffix_inj)
    with k(1) show False by simp
  qed
  have none: "approvals_for st1 (CaseAnalysisResponse.case_id r) = []"
  proof -
    have "approval_record.case_id a \<noteq> CaseAnalysisResponse.case_id r"
      if "a \<in> set (approvals_db st)" for a
    proof -
      from inv that obtain c where "c \<in> set (cases_db st)"
        "CaseAnalysisResponse.case_id c = approval_record.case_id a"
        unfolding store_inv_def by blast
      with fresh show ?thesis by metis
    qed
    then show ?thesis by (simp add: approvals_for_def ap filter_empty_conv)
  qed
  have af: "approvals_for st1 cid = approvals_for st cid" for cid
    by (simp add: approvals_for_def ap)
  have I1: "\<exists>ts. CaseAnalysisResponse.case_id (cases_db st1 ! i) = ''CASE_'' @ ts @ ''_'' @ str_nat i"
    if "i < length (cases_db st1)" for i
  proof (cases "i < ?n")
    case True
    with inv show ?thesis unfolding store_inv_def db by (simp add: nth_append)
  next
    case False
    with that have "i = ?n" by (simp add: db)
    then show ?thesis using rid by (auto simp: db)
  qed
  have I2: "\<exists>c \<in> set (cases_db st1). CaseAnalysisResponse.case_id c = approval_record.case_id a"
    if "a \<in> set (approvals_db st1)" for a
    using inv that unfolding store_inv_def db ap by auto
  have I3: "CaseAnalysisResponse.status c \<in> {''PENDING_APPROVAL'', ''APPROVE'', ''REJECT''}
        \<and> length (approvals_for st1 (CaseAnalysisResponse.case_id c)) =
            (if CaseAnalysisResponse.status c = ''PENDING_APPROVAL'' then 0 else 1)"
    if "c \<in> set (cases_db st1)" for c
  proof (cases "c = r")
    case True
    then show ?thesis using pend none by simp
  next
    case False
    with that have "c \<in> set (cases_db st)" by (simp add: db)
    with inv show ?thesis unfolding store_inv_def af by blast
  qed
  show ?thesis
    unfolding store_inv_def using I1 I2 I3 by blast
qed

lemma store_inv_analyze:
  assumes "store_inv st"
  shows "store_inv (fst (analyze_case st cd nid niso))"
proof -
  obtain st1 res where eq: "analyze_case st cd nid niso = (st1, res)"
    by (cases "analyze_case st cd nid niso")
  from analyze_case_effect [OF eq] have ap: "approvals_db st1 = approvals_db st"
    and alt: "cases_db st1 = cases_db st
          \<or> (\<exists>r. cases_db st1 = cases_db st @ [r]
                \<and> CaseAnalysisResponse.status r = ''PENDING_APPROVAL''
                \<and> CaseAnalysisResponse.case_id r =
                    ''CASE_'' @ nid @ ''_'' @ str_nat (length (cases_db st)))"
    by simp_all
  from alt have "store_inv st1"
  proof
    assume "cases_db st1 = cases_db st"
    with ap assms show ?thesis using store_inv_cong [of st1 st] by simp
  next
    assume "\<exists>r. cases_db st1 = cases_db st @ [r]
                \<and> CaseAnalysisResponse.status r = ''PENDING_APPROVAL''
                \<and> CaseAnalysisResponse.case_id r =
                    ''CASE_'' @ nid @ ''_'' @ str_nat (length (cases_db st))"
    then obtain r where r: "cases_db st1 = cases_db st @ [r]"
      "CaseAnalysisResponse.status r = ''PENDING_APPROVAL''"
      "CaseAnalysisResponse.case_id r = ''CASE_'' @ nid @ ''_'' @ str_nat (length (cases_db st))"
      by blast
    show ?thesis by (rule store_inv_append [OF assms r(1) ap r(2) r(3)])
  qed
  then show ?thesis by (simp add: eq)
qed

lemma store_inv_approve:
  assumes inv: "store_inv st"
  shows "store_inv (fst (approve_case st req n1 n2))"
proof -
  obtain st1 res where eq: "approve_case st req n1 n2 = (st1, res)"
    by (cases "approve_case st req n1 n2")
  have "store_inv st1"
  proof (cases res)
    case (Inl e)
    with eq have "st1 = st" by (simp add: approve_failure)
    with inv show ?thesis by simp
  next
    case (Inr resp)
    let ?cid = "ApprovalRequest.case_id req"
    let ?cs = "cases_db st"
    from approve_success [OF eq [unfolded Inr]] obtain i c' a where
      v: "valid_ApprovalRequest req"
      and i: "find_first (\<lambda>c. CaseAnalysisResponse.case_id c = ?cid) ?cs = Some i"
      and pend: "CaseAnalysisResponse.status (?cs ! i) = ''PENDING_APPROVAL''"
      and c': "c' = (?cs ! i)
                 \<lparr>CaseAnalysisResponse.status := ApprovalRequest.decision req,
                  CaseAnalysisResponse.officer_id := Some (ApprovalRequest.officer_id req),
                  CaseAnalysisResponse.officer_notes := ApprovalRequest.officer_notes req,
                  approval_timestamp := Some n1\<rparr>"
      and db: "cases_db st1 = ?cs[i := c']"
      and a: "a = \<lparr>approval_record.case_id = ?cid,
                   officer_id = ApprovalRequest.officer_id req,
                   decision = ApprovalRequest.decision req,
                   officer_notes = ApprovalRequest.officer_notes req,
                   timestamp = n2,
                   ai_recommendation = CaseAnalysisResponse.recommended_action (?cs ! i),
                   ai_risk_score = CaseAnalysisResponse.risk_score (?cs ! i)\<rparr>"
      and ap: "approvals_db st1 = approvals_db st @ [a]"
      by blast
    from find_first_Some [OF i] have len: "i < length ?cs"
      and cid: "CaseAnalysisResponse.case_id (?cs ! i) = ?cid" by simp_all
    have acid: "approval_record.case_id a = ?cid" by (simp add: a)
    have len1: "length (cases_db st1) = length ?cs" by (simp add: db)
    have ids: "CaseAnalysisResponse.case_id (cases_db st1 ! k) = CaseAnalysisResponse.case_id (?cs ! k)"
      if "k < length ?cs" for k
      using that cid by (cases "k = i") (simp_all add: db c')
    have dec: "ApprovalRequest.decision req = ''APPROVE'' \<or> ApprovalRequest.decision req = ''REJECT''"
      using v by (simp add: valid_ApprovalRequest_def)
    have old0: "approvals_for st ?cid = []"
    proof -
      have "?cs ! i \<in> set ?cs" using len by simp
      with inv have "length (approvals_for st (CaseAnalysisResponse.case_id (?cs ! i))) =
            (if CaseAnalysisResponse.status (?cs ! i) = ''PENDING_APPROVAL'' then 0 else 1)"
        unfolding store_inv_def by blast
      with pend cid show ?thesis by simp
    qed
    have I1: "\<exists>ts. CaseAnalysisResponse.case_id (cases_db st1 ! k) = ''CASE_'' @ ts @ ''_'' @ str_nat k"
      if "k < length (cases_db st1)" for k
    proof -
      from that have k: "k < length ?cs" by (simp add: len1)
      with inv obtain ts where
        "CaseAnalysisResponse.case_id (?cs ! k) = ''CASE_'' @ ts @ ''_'' @ str_nat k"
        unfolding store_inv_def by blast
      with ids [OF k] show ?thesis by metis
    qed
    have has_case: "\<exists>c \<in> set (cases_db st1). CaseAnalysisResponse.case_id c = x"
      if "c0 \<in> set ?cs" "CaseAnalysisResponse.case_id c0 = x" for c0 x
    proof -
      from that(1) obtain k where k: "k < length ?cs" "?cs ! k = c0"
        by (auto simp: in_set_conv_nth)
      have "cases_db st1 ! k \<in> set (cases_db st1)" using k(1) len1 by simp
      moreover have "CaseAnalysisResponse.case_id (cases_db st1 ! k) = x"
        using ids [OF k(1)] k(2) that(2) by simp
      ultimately show ?thesis by blast
    qed
    have I2: "\<exists>c \<in> set (cases_db st1). CaseAnalysisResponse.case_id c = approval_record.case_id a0"
      if "a0 \<in> set (approvals_db st1)" for a0
    proof (cases "a0 = a")
      case True
      have "?cs ! i \<in> set ?cs" using len by simp
      from has_case [OF this cid] show ?thesis using True acid by simp
    next
      case False
      with that have "a0 \<in> set (approvals_db st)" by (simp add: ap)
      with inv obtain c0 where "c0 \<in> set ?cs"
        "CaseAnalysisResponse.case_id c0 = approval_record.case_id a0"
        unfolding store_inv_def by blast
      then show ?thesis by (rule has_case)
    qed
    have I3: "CaseAnalysisResponse.status c0 \<in> {''PENDING_APPROVAL'', ''APPROVE'', ''REJECT''}
        \<and> length (approvals_for st1 (CaseAnalysisResponse.case_id c0)) =
            (if CaseAnalysisResponse.status c0 = ''PENDING_APPROVAL'' then 0 else 1)"
      if "c0 \<in> set (cases_db st1)" for c0
    proof -
      from that obtain k where k: "k < length ?cs" "cases_db st1 ! k = c0"
        by (auto simp: in_set_conv_nth len1)
      show ?thesis
      proof (cases "k = i")
        case True
        with k len have c0: "c0 = c'" by (simp add: db)
        have "approvals_for st1 ?cid = approvals_for st ?cid @ [a]"
          by (simp add: approvals_for_def ap acid)
        with old0 have "length (approvals_for st1 ?cid) = 1" by simp
        moreover have "CaseAnalysisResponse.case_id c0 = ?cid" using c0 c' cid by simp
        moreover have "CaseAnalysisResponse.status c0 = ApprovalRequest.decision req"
          using c0 c' by simp
        ultimately show ?thesis using dec by auto
      next
        case False
        with k have c0: "c0 = ?cs ! k" by (simp add: db)
        have "CaseAnalysisResponse.case_id c0 \<noteq> ?cid"
        proof
          assume "CaseAnalysisResponse.case_id c0 = ?cid"
          with c0 cid have "CaseAnalysisResponse.case_id (?cs ! k) =
              CaseAnalysisResponse.case_id (?cs ! i)" by simp
          from store_inv_ids [OF inv k(1) len this] False show False by simp
        qed
        then have "approvals_for st1 (CaseAnalysisResponse.case_id c0) =
            approvals_for st (CaseAnalysisResponse.case_id c0)"
          by (auto simp: approvals_for_def ap acid)
        moreover have "c0 \<in> set ?cs" using c0 k(1) by simp
        ultimately show ?thesis using inv unfolding store_inv_def by simp
      qed
    qed
    show ?thesis
      unfolding store_inv_def using I1 I2 I3 by blast
  qed
  then show ?thesis by (simp add: eq)
qed

lemma reachable_store_inv: "reachable st \<Longrightarrow> store_inv st"
proof (induction rule: reachable.induct)
  case (start st)
  then show ?case by (rule store_inv_start)
next
  case (analyze st case_data now_id now_iso)
  then show ?case by (simp only: store_inv_analyze)
next
  case (approve st request now1 now2)
  then show ?case by (simp only: store_inv_approve)
qed

lemma get_cases_filter:
  "get_cases st s r = filter (matches s r) (cases_db st)"
  by (auto simp: get_cases_def matches_def Let_def intro: filter_cong)

lemma main_get_cases_eq:
  "main_get_cases st s r l = py_slice_to (sorted_newest_first (filter (matches s r) (cases_db st))) l"
proof -
  have "main_get_cases st s r l = py_slice_to (sorted_newest_first (get_cases st s r)) l"
    by (simp add: main_get_cases_def get_cases_def Let_def)
  then show ?thesis by (simp only: get_cases_filter)
qed

lemma demo_app1_cases:
  "map CaseAnalysisResponse.case_id (cases_db demo_app1) = [''CASE_20260105100000_0'']
   \<and> map CaseAnalysisResponse.status (cases_db demo_app1) = [''PENDING_APPROVAL'']
   \<and> map CaseAnalysisResponse.timestamp (cases_db demo_app1) = [''2026-01-05T10:00:00'']
   \<and> approvals_db demo_app1 = []"
  by (simp add: demo_app1_def demo_app0_def demo_case_def demo_risk_model_def demo_engine_def
        analyze_case_def valid_CitizenCase_def prepare_features_def fit_transform_def
        predict_risk_def get_model_reasons_def generate_explanation_def
        generate_mock_explanation_def
        ExplanationEngine_init_def features_def Let_def str_nat_0)

lemma demo_app2_cases:
  "map CaseAnalysisResponse.case_id (cases_db demo_app2) = [''CASE_20260105100000_0'']
   \<and> map CaseAnalysisResponse.status (cases_db demo_app2) = [''APPROVE'']
   \<and> map CaseAnalysisResponse.timestamp (cases_db demo_app2) = [''2026-01-05T10:00:00'']
   \<and> map approval_record.case_id (approvals_db demo_app2) = [''CASE_20260105100000_0'']"
proof -
  obtain c where c: "cases_db demo_app1 = [c]"
    "CaseAnalysisResponse.case_id c = ''CASE_20260105100000_0''"
    "CaseAnalysisResponse.status c = ''PENDING_APPROVAL''"
    "CaseAnalysisResponse.timestamp c = ''2026-01-05T10:00:00''"
    using demo_app1_cases by auto
  show ?thesis
    using c demo_app1_cases
    by (simp add: demo_app2_def approve_case_def demo_request_def valid_ApprovalRequest_def Let_def)
qed

lemma demo_first_approve_case:
  "\<exists>resp. approve_case demo_app1 demo_request ''2026-01-05T11:00:00'' ''2026-01-05T11:00:01''
     = (demo_app2, Inr resp)"
proof -
  obtain c where c: "cases_db demo_app1 = [c]"
    "CaseAnalysisResponse.case_id c = ''CASE_20260105100000_0''"
    "CaseAnalysisResponse.status c = ''PENDING_APPROVAL''"
    using demo_app1_cases by auto
  show ?thesis
    unfolding demo_app2_def using c
    by (simp add: approve_case_def demo_request_def valid_ApprovalRequest_def Let_def)
qed

lemma demo_app2_models:
  "risk_model demo_app2 = Some (demo_risk_model\<lparr>label_encoder := [''pension'']\<rparr>)
   \<and> explanation_engine demo_app2 = Some demo_engine"
proof -
  have "risk_model demo_app1 = Some (demo_risk_model\<lparr>label_encoder := [''pension'']\<rparr>)
   \<and> explanation_engine demo_app1 = Some demo_engine"
    by (simp add: demo_app1_def demo_app0_def demo_case_def demo_risk_model_def demo_engine_def
        analyze_case_def valid_CitizenCase_def prepare_features_def fit_transform_def
        predict_risk_def get_model_reasons_def generate_explanation_def
        generate_mock_explanation_def
        ExplanationEngine_init_def features_def Let_def str_nat_0)
  moreover obtain resp where
    "approve_case demo_app1 demo_request ''2026-01-05T11:00:00'' ''2026-01-05T11:00:01''
     = (demo_app2, Inr resp)" using demo_first_approve_case by blast
  ultimately show ?thesis using approve_success by metis
qed

lemma demo_app3_cases:
  "map CaseAnalysisResponse.case_id (cases_db demo_app3) =
     [''CASE_20260105100000_0'', ''CASE_20260105120000_1'']
   \<and> map CaseAnalysisResponse.status (cases_db demo_app3) = [''APPROVE'', ''PENDING_APPROVAL'']
   \<and> map CaseAnalysisResponse.timestamp (cases_db demo_app3) =
       [''2026-01-05T10:00:00'', ''2026-01-05T12:00:00'']"
proof -
  obtain c where c: "cases_db demo_app2 = [c]"
    "CaseAnalysisResponse.case_id c = ''CASE_20260105100000_0''"
    "CaseAnalysisResponse.status c = ''APPROVE''"
    "CaseAnalysisResponse.timestamp c = ''2026-01-05T10:00:00''"
    using demo_app2_cases by auto
  show ?thesis
    using c demo_app2_models
    by (simp add: demo_app3_def demo_case2_def demo_risk_model_def demo_engine_def
        analyze_case_def valid_CitizenCase_def prepare_features_def fit_transform_def
        predict_risk_def get_model_reasons_def generate_explanation_def
        generate_mock_explanation_def
        ExplanationEngine_init_def features_def Let_def str_nat_1)
qed

section \<open>Facts about the risk model\<close>

lemma index_in_sorted_distinct:
  "sorted xs \<Longrightarrow> distinct xs \<Longrightarrow> y \<in> set xs \<Longrightarrow>
     length (takeWhile (\<lambda>c. c \<noteq> y) xs) = card {x \<in> set xs. x < y}"
proof (induction xs)
  case Nil
  then show ?case by simp
next
  case (Cons x xs)
  show ?case
  proof (cases "x = y")
    case True
    have "{z \<in> set (x # xs). z < y} = {}"
      using Cons.prems(1) True by auto
    with True show ?thesis by simp
  next
    case False
    with Cons.prems have y: "y \<in> set xs" and s: "sorted xs" and d: "distinct xs"
      and x: "x \<notin> set xs" and le: "x \<le> y"
      by auto
    from le False have lt: "x < y" by simp
    have eq: "{z \<in> set (x # xs). z < y} = insert x {z \<in> set xs. z < y}"
      using lt by auto
    have "card {z \<in> set (x # xs). z < y} = Suc (card {z \<in> set xs. z < y})"
      unfolding eq using x by simp
    with Cons.IH [OF s d y] False show ?thesis by simp
  qed
qed

lemma fit_transform_codes:
  assumes "i < length ys"
  shows "snd (fit_transform ys) ! i = card {s \<in> set ys. s < ys ! i}"
proof -
  have "ys ! i \<in> set (sort (remdups ys))" using assms by simp
  from index_in_sorted_distinct [OF _ _ this]
  have "length (takeWhile (\<lambda>c. c \<noteq> ys ! i) (sort (remdups ys))) =
      card {x \<in> set (sort (remdups ys)). x < ys ! i}"
    by simp
  then show ?thesis using assms by (simp add: fit_transform_def Let_def)
qed

lemma prepare_features_row:
  assumes "i < length df"
  shows "snd (prepare_features self df) ! i =
     [income (df ! i), last_document_update_months (df ! i),
      real (snd (fit_transform (map scheme_type df)) ! i),
      real_of_int (past_benefit_interruptions (df ! i))]"
  using assms
  by (simp add: prepare_features_def fit_transform_def Let_def)

lemma prepare_features_code:
  assumes "i < length df"
  shows "snd (prepare_features self df) ! i ! 2 =
     real (card {s \<in> set (map scheme_type df). s < scheme_type (df ! i)})"
proof -
  have "snd (fit_transform (map scheme_type df)) ! i =
      card {s \<in> set (map scheme_type df). s < map scheme_type df ! i}"
    by (rule fit_transform_codes) (simp add: assms)
  then show ?thesis using assms by (simp add: prepare_features_row)
qed

lemma prepare_features_length: "length (snd (prepare_features self df)) = length df"
  by (simp add: prepare_features_def fit_transform_def Let_def)

lemma prepare_features_encoder:
  "label_encoder (fst (prepare_features self df)) = sort (remdups (map scheme_type df))"
  by (simp add: prepare_features_def fit_transform_def Let_def)

lemma prepare_features_pair:
  assumes "scheme_type a < scheme_type b"
  shows "map (\<lambda>x. x ! 2) (snd (prepare_features self [a, b])) = [0, 1]
       \<and> map (\<lambda>x. x ! 2) (snd (prepare_features self [b, a])) = [1, 0]
       \<and> map (\<lambda>x. x ! 2) (snd (prepare_features self [b])) = [0]
       \<and> map (\<lambda>x. x ! 2) (snd (prepare_features self [a])) = [0]"
  using assms
  by (auto simp: prepare_features_def fit_transform_def Let_def)

section \<open>Facts about the explanation engine\<close>







section \<open>The approval workflow: decision alignment\<close>

text \<open>
  C1. \<open>_check_decision_alignment\<close> answers OVERRIDE exactly for the pairs
  (URGENT\_REVIEW, APPROVE) and (ROUTINE\_REVIEW, REJECT) of AI recommendation and human
  decision, and ALIGNED for every other pair; a STANDARD\_REVIEW recommendation is ALIGNED
  whatever the decision.
\<close>

theorem check_decision_alignment_override_iff:
  "(check_decision_alignment a = ''OVERRIDE'' \<longleftrightarrow>
      (approval.ai_recommendation a = ''URGENT_REVIEW'' \<and> human_decision a = Some ''APPROVE'') \<or>
      (approval.ai_recommendation a = ''ROUTINE_REVIEW'' \<and> human_decision a = Some ''REJECT''))
   \<and> (check_decision_alignment a = ''ALIGNED'' \<longleftrightarrow>
      \<not> ((approval.ai_recommendation a = ''URGENT_REVIEW'' \<and> human_decision a = Some ''APPROVE'') \<or>
         (approval.ai_recommendation a = ''ROUTINE_REVIEW'' \<and> human_decision a = Some ''REJECT'')))
   \<and> (approval.ai_recommendation a = ''STANDARD_REVIEW'' \<longrightarrow> check_decision_alignment a = ''ALIGNED'')"
  by (auto simp: check_decision_alignment_def Let_def)

theorem check_decision_alignment_witness:
  "approval.ai_recommendation
     \<lparr>approval.case_id = ''CASE_002'', ai_recommendation = ''STANDARD_REVIEW'',
      ai_risk_score = 45, ai_explanation = ''Moderate risk'', status = REJECTED,
      created_at = ''2026-01-05T10:00:00'', human_decision = Some ''REJECT'',
      officer_id = Some ''OFFICER_123'', officer_notes = None,
      approved_at = Some ''2026-01-05T11:00:00''\<rparr> = ''STANDARD_REVIEW''
   \<and> check_decision_alignment
     \<lparr>approval.case_id = ''CASE_002'', ai_recommendation = ''STANDARD_REVIEW'',
      ai_risk_score = 45, ai_explanation = ''Moderate risk'', status = REJECTED,
      created_at = ''2026-01-05T10:00:00'', human_decision = Some ''REJECT'',
      officer_id = Some ''OFFICER_123'', officer_notes = None,
      approved_at = Some ''2026-01-05T11:00:00''\<rparr> = ''ALIGNED''"
  using check_decision_alignment_override_iff
    [of "\<lparr>approval.case_id = ''CASE_002'', ai_recommendation = ''STANDARD_REVIEW'',
      ai_risk_score = 45, ai_explanation = ''Moderate risk'', status = REJECTED,
      created_at = ''2026-01-05T10:00:00'', human_decision = Some ''REJECT'',
      officer_id = Some ''OFFICER_123'', officer_notes = None,
      approved_at = Some ''2026-01-05T11:00:00''\<rparr>"]
  by simp

section \<open>A second approval of the same case\<close>

text \<open>
  C2. After a successful approval of a case id, a second call for the same case id fails
  with the already-processed error and leaves the state as the first call left it:
  \<open>process_human_approval\<close> raises its "already processed" \<open>ValueError\<close> whatever the
  other arguments are, and \<open>approve_case\<close> answers 400 "Case already processed" to every
  request the framework lets through (and fails on every other one). The status, officer,
  notes and timestamp written by the first call are the ones found afterwards.
\<close>

theorem second_approval_is_conflict:
  "(process_human_approval self cid oid dec onotes t1 t2 = (self1, Inr r) \<longrightarrow>
      process_human_approval self1 cid oid2 dec2 onotes2 t3 t4 =
           (self1, Inl (AlreadyProcessed cid (approval.status r)))
         \<and> (approval.status r = APPROVED \<or> approval.status r = REJECTED)
         \<and> human_decision r = Some dec \<and> approval.officer_id r = Some oid
         \<and> approval.officer_notes r = onotes \<and> approved_at r = Some t1
         \<and> (\<exists>i. find_first (\<lambda>a. approval.case_id a = cid) (approval_log self1) = Some i
                \<and> approval_log self1 ! i = r))
   \<and> (approve_case st req n1 n2 = (st1, Inr resp)
        \<and> ApprovalRequest.case_id req2 = ApprovalRequest.case_id req \<longrightarrow>
       (valid_ApprovalRequest req2 \<longrightarrow> approve_case st1 req2 n3 n4 =
           (st1, Inl (HTTPException 400
              (''Case already processed. Current status: '' @ ApprovalRequest.decision req))))
         \<and> isl (snd (approve_case st1 req2 n3 n4)) \<and> fst (approve_case st1 req2 n3 n4) = st1
         \<and> (\<exists>i. find_first (\<lambda>c. CaseAnalysisResponse.case_id c = ApprovalRequest.case_id req)
                  (cases_db st1) = Some i
                \<and> CaseAnalysisResponse.status (cases_db st1 ! i) = ApprovalRequest.decision req
                \<and> CaseAnalysisResponse.officer_id (cases_db st1 ! i)
                     = Some (ApprovalRequest.officer_id req)
                \<and> CaseAnalysisResponse.officer_notes (cases_db st1 ! i)
                     = ApprovalRequest.officer_notes req
                \<and> approval_timestamp (cases_db st1 ! i) = Some n1))"
proof (rule conjI; rule impI)
  assume "process_human_approval self cid oid dec onotes t1 t2 = (self1, Inr r)"
  then show "process_human_approval self1 cid oid2 dec2 onotes2 t3 t4 =
           (self1, Inl (AlreadyProcessed cid (approval.status r)))
         \<and> (approval.status r = APPROVED \<or> approval.status r = REJECTED)
         \<and> human_decision r = Some dec \<and> approval.officer_id r = Some oid
         \<and> approval.officer_notes r = onotes \<and> approved_at r = Some t1
         \<and> (\<exists>i. find_first (\<lambda>a. approval.case_id a = cid) (approval_log self1) = Some i
                \<and> approval_log self1 ! i = r)"
    by (rule process_second_call)
next
  assume "approve_case st req n1 n2 = (st1, Inr resp)
        \<and> ApprovalRequest.case_id req2 = ApprovalRequest.case_id req"
  then have "approve_case st req n1 n2 = (st1, Inr resp)"
    "ApprovalRequest.case_id req2 = ApprovalRequest.case_id req" by simp_all
  then show "(valid_ApprovalRequest req2 \<longrightarrow> approve_case st1 req2 n3 n4 =
           (st1, Inl (HTTPException 400
              (''Case already processed. Current status: '' @ ApprovalRequest.decision req))))
         \<and> isl (snd (approve_case st1 req2 n3 n4)) \<and> fst (approve_case st1 req2 n3 n4) = st1
         \<and> (\<exists>i. find_first (\<lambda>c. CaseAnalysisResponse.case_id c = ApprovalRequest.case_id req)
                  (cases_db st1) = Some i
                \<and> CaseAnalysisResponse.status (cases_db st1 ! i) = ApprovalRequest.decision req
                \<and> CaseAnalysisResponse.officer_id (cases_db st1 ! i)
                     = Some (ApprovalRequest.officer_id req)
                \<and> CaseAnalysisResponse.officer_notes (cases_db st1 ! i)
                     = ApprovalRequest.officer_notes req
                \<and> approval_timestamp (cases_db st1 ! i) = Some n1)"
    by (rule approve_second_call)
qed

theorem second_approval_is_conflict_witness:
  "process_human_approval demo_workflow2 ''CASE_001'' ''OFFICER_456'' ''REJECT'' None
       ''2026-01-06T09:00:00'' ''2026-01-06T09:00:01'' =
     (demo_workflow2, Inl (AlreadyProcessed ''CASE_001'' APPROVED))
   \<and> approve_case demo_app2 (demo_request\<lparr>ApprovalRequest.decision := ''REJECT''\<rparr>)
       ''2026-01-06T09:00:00'' ''2026-01-06T09:00:01'' =
     (demo_app2, Inl (HTTPException 400 ''Case already processed. Current status: APPROVE''))"
proof -
  from demo_first_approval obtain r where
    r: "process_human_approval demo_workflow1 ''CASE_001'' ''OFFICER_123'' ''APPROVE''
            (Some ''Verified documents, case is legitimate despite high risk score'')
            ''2026-01-05T11:00:00'' ''2026-01-05T11:00:01'' = (demo_workflow2, Inr r)"
    and st: "approval.status r = APPROVED" by blast
  from demo_first_approve_case obtain resp where
    resp: "approve_case demo_app1 demo_request ''2026-01-05T11:00:00'' ''2026-01-05T11:00:01''
     = (demo_app2, Inr resp)" by blast
  let ?req2 = "demo_request\<lparr>ApprovalRequest.decision := ''REJECT''\<rparr>"
  have same: "ApprovalRequest.case_id ?req2 = ApprovalRequest.case_id demo_request" by simp
  have v: "valid_ApprovalRequest ?req2" by (simp add: valid_ApprovalRequest_def)
  note T = second_approval_is_conflict
    [of demo_workflow1 "''CASE_001''" "''OFFICER_123''" "''APPROVE''"
        "Some ''Verified documents, case is legitimate despite high risk score''"
        "''2026-01-05T11:00:00''" "''2026-01-05T11:00:01''" demo_workflow2 r
        "''OFFICER_456''" "''REJECT''" None "''2026-01-06T09:00:00''" "''2026-01-06T09:00:01''"
        demo_app1 demo_request "''2026-01-05T11:00:00''" "''2026-01-05T11:00:01''" demo_app2 resp
        ?req2 "''2026-01-06T09:00:00''" "''2026-01-06T09:00:01''"]
  note a = T [THEN conjunct1, THEN mp, OF r, THEN conjunct1]
  note b = T [THEN conjunct2, THEN mp, OF conjI [OF resp same], THEN conjunct1, THEN mp, OF v]
  from a b st show ?thesis by (simp add: demo_request_def)
qed

section \<open>One approval record per decided case\<close>

text \<open>
  C3. In every state the service can reach through \<open>analyze_case\<close> and
  \<open>approve_case\<close>, a case whose status is no longer PENDING\_APPROVAL (so in particular
  one with status APPROVED or REJECTED; the values the handler stores are the decision
  strings APPROVE and REJECT) has exactly one approval record with its case id, a pending
  case has none, no case id has more than one record, and case ids are distinct.
\<close>

theorem reachable_one_approval_per_terminal_case:
  assumes "reachable st"
  shows "(\<forall>c \<in> set (cases_db st).
           CaseAnalysisResponse.status c \<in> {''PENDING_APPROVAL'', ''APPROVE'', ''REJECT''}
           \<and> (CaseAnalysisResponse.status c = ''PENDING_APPROVAL'' \<longrightarrow>
                approvals_for st (CaseAnalysisResponse.case_id c) = [])
           \<and> (CaseAnalysisResponse.status c \<noteq> ''PENDING_APPROVAL'' \<longrightarrow>
                length (approvals_for st (CaseAnalysisResponse.case_id c)) = 1))
       \<and> (\<forall>cid. length (approvals_for st cid) \<le> 1)
       \<and> distinct (map CaseAnalysisResponse.case_id (cases_db st))"
proof -
  from assms have inv: "store_inv st" by (rule reachable_store_inv)
  have A: "CaseAnalysisResponse.status c \<in> {''PENDING_APPROVAL'', ''APPROVE'', ''REJECT''}
           \<and> (CaseAnalysisResponse.status c = ''PENDING_APPROVAL'' \<longrightarrow>
                approvals_for st (CaseAnalysisResponse.case_id c) = [])
           \<and> (CaseAnalysisResponse.status c \<noteq> ''PENDING_APPROVAL'' \<longrightarrow>
                length (approvals_for st (CaseAnalysisResponse.case_id c)) = 1)"
    if "c \<in> set (cases_db st)" for c
  proof -
    from inv that have
      "CaseAnalysisResponse.status c \<in> {''PENDING_APPROVAL'', ''APPROVE'', ''REJECT''}
        \<and> length (approvals_for st (CaseAnalysisResponse.case_id c)) =
            (if CaseAnalysisResponse.status c = ''PENDING_APPROVAL'' then 0 else 1)"
      unfolding store_inv_def by blast
    then show ?thesis by (simp split: if_splits)
  qed
  have B: "length (approvals_for st cid) \<le> 1" for cid
  proof (cases "approvals_for st cid")
    case Nil
    then show ?thesis by simp
  next
    case (Cons a as)
    then have "a \<in> set (approvals_db st)" "approval_record.case_id a = cid"
      using filter_eq_ConsD [of "\<lambda>a. approval_record.case_id a = cid" "approvals_db st" a as]
      by (auto simp: approvals_for_def)
    with inv obtain c where c: "c \<in> set (cases_db st)" "CaseAnalysisResponse.case_id c = cid"
      unfolding store_inv_def by blast
    from A [OF c(1)] c(2) show ?thesis by (cases "CaseAnalysisResponse.status c = ''PENDING_APPROVAL''") simp_all
  qed
  from A B store_inv_distinct [OF inv] show ?thesis by blast
qed

theorem reachable_one_approval_per_terminal_case_witness:
  "reachable demo_app3
   \<and> map CaseAnalysisResponse.status (cases_db demo_app3) = [''APPROVE'', ''PENDING_APPROVAL'']
   \<and> length (approvals_for demo_app3 ''CASE_20260105100000_0'') = 1
   \<and> approvals_for demo_app3 ''CASE_20260105120000_1'' = []"
proof -
  have "reachable demo_app0"
    by (rule reachable.start) (simp_all add: demo_app0_def)
  then have "reachable demo_app1"
    unfolding demo_app1_def by (rule reachable.analyze)
  then have "reachable demo_app2"
    unfolding demo_app2_def by (rule reachable.approve)
  then have reach: "reachable demo_app3"
    unfolding demo_app3_def by (rule reachable.analyze)
  obtain c1 c2 where c: "cases_db demo_app3 = [c1, c2]"
    "CaseAnalysisResponse.case_id c1 = ''CASE_20260105100000_0''"
    "CaseAnalysisResponse.case_id c2 = ''CASE_20260105120000_1''"
    "CaseAnalysisResponse.status c1 = ''APPROVE''"
    "CaseAnalysisResponse.status c2 = ''PENDING_APPROVAL''"
    using demo_app3_cases by auto
  note T = reachable_one_approval_per_terminal_case [OF reach, THEN conjunct1]
  from T c(1) have "length (approvals_for demo_app3 (CaseAnalysisResponse.case_id c1)) = 1"
    using c(4) by simp
  moreover from T c(1) have "approvals_for demo_app3 (CaseAnalysisResponse.case_id c2) = []"
    using c(5) by simp
  ultimately show ?thesis using reach c demo_app3_cases by simp
qed

section \<open>The fallback explanation\<close>



section \<open>Clamped risk scores\<close>

text \<open>
  C5. When \<open>predict_risk\<close> returns, the model is trained, every score returned lies
  between 0 and 100, and the scores are the regressor's outputs with those below 0
  replaced by 0 and those above 100 by 100.
\<close>

theorem predict_risk_clamped:
  assumes "predict_risk self X = Inr (risk_levels, risk_scores, importance)"
  shows "(\<forall>s \<in> set risk_scores. 0 \<le> s \<and> s \<le> 100)
       \<and> (\<exists>raw. regressor_predict self X = Inr raw
             \<and> risk_scores = map (\<lambda>x. if x < 0 then 0 else if 100 < x then 100 else x) raw)
       \<and> is_trained self"
  using assms
  by (auto simp: predict_risk_def np_clip_def Let_def min_def max_def
           split: if_splits sum.splits)

theorem predict_risk_clamped_witness:
  "predict_risk (demo_risk_model\<lparr>regressor_predict := \<lambda>X. Inr (map hd X)\<rparr>)
      [[130], [-5], [42]] =
     Inr ([''high'', ''high'', ''high''], [100, 0, 42], [2/5, 3/10, 1/10, 1/5])
   \<and> (0::real) \<le> 42 \<and> (42::real) \<le> 100"
proof -
  have eq: "predict_risk (demo_risk_model\<lparr>regressor_predict := \<lambda>X. Inr (map hd X)\<rparr>)
      [[130], [-5], [42]] =
     Inr ([''high'', ''high'', ''high''], [100, 0, 42], [2/5, 3/10, 1/10, 1/5])"
    by (simp add: predict_risk_def demo_risk_model_def np_clip_def)
  from predict_risk_clamped [OF eq] have "\<forall>s \<in> set [100, 0, 42::real]. 0 \<le> s \<and> s \<le> 100"
    by (rule conjunct1)
  with eq show ?thesis by simp
qed

section \<open>Pending approvals\<close>

text \<open>
  C6. \<open>get_pending_approvals\<close> returns the records of the log whose status is
  PENDING\_APPROVAL: each of them as often as it occurs in the log, in the log's order,
  and no record whose status is APPROVED or REJECTED.
\<close>

theorem get_pending_approvals_exact:
  "subseq (get_pending_approvals self) (approval_log self)
   \<and> mset (get_pending_approvals self) =
       filter_mset (\<lambda>a. approval.status a = PENDING_APPROVAL) (mset (approval_log self))
   \<and> (\<forall>a \<in> set (get_pending_approvals self).
         approval.status a = PENDING_APPROVAL \<and> approval.status a \<noteq> APPROVED \<and> approval.status a \<noteq> REJECTED)
   \<and> (\<forall>a \<in> set (approval_log self).
         approval.status a = PENDING_APPROVAL \<longrightarrow> a \<in> set (get_pending_approvals self))"
  by (simp add: get_pending_approvals_def)

theorem get_pending_approvals_witness:
  "map approval.case_id (get_pending_approvals demo_workflow3) = [''CASE_002'']
   \<and> map approval.status (approval_log demo_workflow3) = [APPROVED, PENDING_APPROVAL]"
proof -
  obtain r1 r2 where r: "approval_log demo_workflow3 = [r1, r2]"
    "approval.case_id r1 = ''CASE_001''" "approval.case_id r2 = ''CASE_002''"
    "approval.status r1 = APPROVED" "approval.status r2 = PENDING_APPROVAL"
    using demo_workflow3_log by auto
  note T = get_pending_approvals_exact [of demo_workflow3]
  note m = T [THEN conjunct2, THEN conjunct1]
  note s = T [THEN conjunct1]
  have "mset (get_pending_approvals demo_workflow3) = {#r2#}"
    unfolding m using r by simp
  then have "get_pending_approvals demo_workflow3 = [r2]" by simp
  with r demo_workflow3_log show ?thesis by simp
qed

section \<open>The refitted label encoder\<close>

text \<open>
  C7. \<open>prepare_features\<close> refits the label encoder on the column it is given: the
  encoder's classes after the call are the sorted distinct schemes of this batch, and the
  encoded scheme type of a row is the number of distinct schemes in the batch that come
  before its own. So for a single row it is 0 whatever the scheme is, and the code of a
  row depends on the rest of the batch: of two rows with different schemes the later
  scheme gets 1 in the pair and 0 alone.
\<close>

theorem prepare_features_encoding_depends_on_batch:
  "map (\<lambda>x. x ! 2) (snd (prepare_features self [row])) = [0]
   \<and> label_encoder (fst (prepare_features self df)) = sort (remdups (map scheme_type df))
   \<and> length (snd (prepare_features self df)) = length df
   \<and> (\<forall>i < length df. snd (prepare_features self df) ! i ! 2 =
         real (card {s \<in> set (map scheme_type df). s < scheme_type (df ! i)}))
   \<and> (scheme_type a < scheme_type b \<longrightarrow>
         map (\<lambda>x. x ! 2) (snd (prepare_features self [a, b])) = [0, 1]
       \<and> map (\<lambda>x. x ! 2) (snd (prepare_features self [b, a])) = [1, 0]
       \<and> map (\<lambda>x. x ! 2) (snd (prepare_features self [b])) = [0]
       \<and> map (\<lambda>x. x ! 2) (snd (prepare_features self [a])) = [0])"
proof -
  have one: "map (\<lambda>x. x ! 2) (snd (prepare_features self [row])) = [0]"
    by (simp add: prepare_features_def fit_transform_def Let_def)
  have codes: "\<forall>i < length df. snd (prepare_features self df) ! i ! 2 =
         real (card {s \<in> set (map scheme_type df). s < scheme_type (df ! i)})"
    using prepare_features_code by blast
  have pair: "scheme_type a < scheme_type b \<longrightarrow>
         map (\<lambda>x. x ! 2) (snd (prepare_features self [a, b])) = [0, 1]
       \<and> map (\<lambda>x. x ! 2) (snd (prepare_features self [b, a])) = [1, 0]
       \<and> map (\<lambda>x. x ! 2) (snd (prepare_features self [b])) = [0]
       \<and> map (\<lambda>x. x ! 2) (snd (prepare_features self [a])) = [0]"
    by (rule impI) (rule prepare_features_pair)
  from one prepare_features_encoder [of self df] prepare_features_length [of self df] codes pair
  show ?thesis by (intro conjI)
qed

theorem prepare_features_encoding_witness:
  "map (\<lambda>x. x ! 2) (snd (prepare_features demo_risk_model [demo_case, demo_case2])) = [0, 1]
   \<and> map (\<lambda>x. x ! 2) (snd (prepare_features demo_risk_model [demo_case2])) = [0]
   \<and> snd (prepare_features demo_risk_model [demo_case, demo_case2]) ! 1 ! 2 = 1
   \<and> scheme_type demo_case = ''pension'' \<and> scheme_type demo_case2 = ''subsidy''"
proof -
  have lt: "scheme_type demo_case < scheme_type demo_case2"
    by (simp add: demo_case_def demo_case2_def)
  note T = prepare_features_encoding_depends_on_batch
    [of demo_risk_model demo_case "[demo_case, demo_case2]" demo_case demo_case2]
  note p = T [THEN conjunct2, THEN conjunct2, THEN conjunct2, THEN conjunct2, THEN mp, OF lt]
  have i: "(1::nat) < length [demo_case, demo_case2]" by simp
  note c = T [THEN conjunct2, THEN conjunct2, THEN conjunct2, THEN conjunct1, THEN spec,
              THEN mp, OF i]
  have "{s \<in> set (map scheme_type [demo_case, demo_case2]).
          s < scheme_type ([demo_case, demo_case2] ! 1)} = {''pension''}"
    by (auto simp: demo_case_def demo_case2_def)
  with c have "snd (prepare_features demo_risk_model [demo_case, demo_case2]) ! 1 ! 2 = 1"
    by simp
  with p show ?thesis by (simp add: demo_case_def demo_case2_def)
qed

section \<open>Listing cases\<close>

text \<open>
  C8, as stated, fails for the handler of backend/app.py and step4\_backend\_api.py: with
  two stored cases, a query with \<open>limit=1\<close> is answered with both.
\<close>

theorem get_cases_limit_counterexample:
  "length (GET_cases demo_app3 [''limit'' \<mapsto> ''1'']) = 2"
proof -
  have "length (cases_db demo_app3) = 2"
    using demo_app3_cases by (metis length_map list.size(3,4) One_nat_def Suc_1 add.commute plus_1_eq_Suc)
  then show ?thesis
    by (simp add: GET_cases_def get_cases_def truthy_def)
qed

text \<open>
  C8, amended. \<open>GET /cases\<close> of backend/app.py and step4\_backend\_api.py accepts
  \<open>status\<close> and \<open>risk_level\<close> as filters and returns the stored cases that pass them, in
  stored order; a \<open>limit\<close> in the query changes nothing. Only the handler of
  backend/main.py takes a limit: for a limit of at least 0 it returns at most that many
  cases, the first ones of the matching cases sorted by timestamp, newest first.
\<close>

theorem get_cases_ignores_limit:
  "GET_cases st query =
     filter (matches (query ''status'') (query ''risk_level'')) (cases_db st)
   \<and> GET_cases st (query(''limit'' \<mapsto> n)) = GET_cases st query
   \<and> (0 \<le> k \<longrightarrow>
        length (main_get_cases st s r (Some k)) \<le> nat k
        \<and> main_get_cases st s r (Some k) =
            take (nat k) (sorted_newest_first (filter (matches s r) (cases_db st))))
   \<and> mset (sorted_newest_first cs) = mset cs
   \<and> sorted (rev (map CaseAnalysisResponse.timestamp (sorted_newest_first cs)))"
  by (simp add: GET_cases_def get_cases_filter main_get_cases_eq py_slice_to_def
        sorted_newest_first_def rev_map [symmetric])

theorem get_cases_ignores_limit_witness:
  "map CaseAnalysisResponse.case_id
     (GET_cases demo_app3 [''status'' \<mapsto> ''APPROVE'', ''limit'' \<mapsto> ''1'']) =
     [''CASE_20260105100000_0'']
   \<and> map CaseAnalysisResponse.case_id (main_get_cases demo_app3 None None (Some 1)) =
     [''CASE_20260105120000_1'']"
proof -
  obtain c1 c2 where c: "cases_db demo_app3 = [c1, c2]"
    "CaseAnalysisResponse.case_id c1 = ''CASE_20260105100000_0''"
    "CaseAnalysisResponse.case_id c2 = ''CASE_20260105120000_1''"
    "CaseAnalysisResponse.status c1 = ''APPROVE''"
    "CaseAnalysisResponse.status c2 = ''PENDING_APPROVAL''"
    "CaseAnalysisResponse.timestamp c1 = ''2026-01-05T10:00:00''"
    "CaseAnalysisResponse.timestamp c2 = ''2026-01-05T12:00:00''"
    using demo_app3_cases by auto
  note T = get_cases_ignores_limit
    [of demo_app3 "[''status'' \<mapsto> ''APPROVE'']" "''1''" 1 None None "[c1, c2]"]
  note a = T [THEN conjunct1]
  note b = T [THEN conjunct2, THEN conjunct1]
  have k: "(0::int) \<le> 1" by simp
  note d = T [THEN conjunct2, THEN conjunct2, THEN conjunct1, THEN mp, OF k, THEN conjunct2]
  have m1: "matches (Some ''APPROVE'') None c1" "\<not> matches (Some ''APPROVE'') None c2"
    "matches None None c1" "matches None None c2"
    using c by (simp_all add: matches_def truthy_def)
  have "GET_cases demo_app3 [''status'' \<mapsto> ''APPROVE'', ''limit'' \<mapsto> ''1''] = [c1]"
    unfolding b a using c(1) m1 by simp
  moreover have "main_get_cases demo_app3 None None (Some 1) = [c2]"
    unfolding d using c m1 by (simp add: sorted_newest_first_def)
  ultimately show ?thesis using c by simp
qed

section \<open>Creating an approval request\<close>

text \<open>
  C9, as stated, fails: a second request for the case id CASE\_001 is not refused; the
  log then holds two records with that id.
\<close>

theorem create_approval_request_duplicate_counterexample:
  "map approval.case_id
     (approval_log (fst (create_approval_request demo_workflow1 ''CASE_001'' ''ROUTINE_REVIEW''
        12 ''Low risk case'' ''2026-01-05T10:05:00''))) = [''CASE_001'', ''CASE_001'']
   \<and> \<not> isl (snd (create_approval_request demo_workflow1 ''CASE_001'' ''ROUTINE_REVIEW''
        12 ''Low risk case'' ''2026-01-05T10:05:00''))"
  by (simp add: create_approval_request_def demo_workflow1_log Let_def)

text \<open>
  C9, amended. \<open>create_approval_request\<close> always succeeds: it appends one record with
  the given case id, recommendation, score and explanation, in state PENDING\_APPROVAL and
  with the four human-decision fields empty, and returns it; the records already in the
  log, among them any with the same case id, stay as they are.
\<close>

theorem create_approval_request_appends:
  "\<exists>r. create_approval_request self cid rec score expl now =
          (self\<lparr>approval_log := approval_log self @ [r]\<rparr>, Inr r)
       \<and> approval.case_id r = cid \<and> approval.ai_recommendation r = rec
       \<and> approval.ai_risk_score r = score \<and> ai_explanation r = expl
       \<and> approval.status r = PENDING_APPROVAL \<and> created_at r = now
       \<and> human_decision r = None \<and> approval.officer_id r = None
       \<and> approval.officer_notes r = None \<and> approved_at r = None"
  unfolding create_approval_request_def Let_def
  by (rule exI [of _ "\<lparr>approval.case_id = cid, ai_recommendation = rec,
        ai_risk_score = score, ai_explanation = expl, status = PENDING_APPROVAL,
        created_at = now, human_decision = None, officer_id = None,
        officer_notes = None, approved_at = None\<rparr>"]) simp

section \<open>Failed approvals change nothing\<close>

text \<open>
  C10. Whenever \<open>process_human_approval\<close> raises, the workflow is left exactly as it
  was, and the error is one of the three: not found, already processed, invalid decision.
  An unknown case id, a record that is no longer pending, and a decision other than
  APPROVE or REJECT each make it raise.
\<close>

theorem process_human_approval_error_unchanged:
  "(\<forall>e. snd (process_human_approval self cid oid dec onotes t1 t2) = Inl e \<longrightarrow>
      fst (process_human_approval self cid oid dec onotes t1 t2) = self
      \<and> (e = ApprovalNotFound cid \<or> (\<exists>st. e = AlreadyProcessed cid st \<and> st \<noteq> PENDING_APPROVAL)
           \<or> e = InvalidDecision))
   \<and> ((\<forall>a \<in> set (approval_log self). approval.case_id a \<noteq> cid) \<longrightarrow>
        process_human_approval self cid oid dec onotes t1 t2 = (self, Inl (ApprovalNotFound cid)))
   \<and> (\<forall>i. find_first (\<lambda>a. approval.case_id a = cid) (approval_log self) = Some i
          \<and> approval.status (approval_log self ! i) \<noteq> PENDING_APPROVAL \<longrightarrow>
        process_human_approval self cid oid dec onotes t1 t2 =
          (self, Inl (AlreadyProcessed cid (approval.status (approval_log self ! i)))))
   \<and> (dec \<noteq> ''APPROVE'' \<and> dec \<noteq> ''REJECT'' \<longrightarrow>
        isl (snd (process_human_approval self cid oid dec onotes t1 t2))
        \<and> fst (process_human_approval self cid oid dec onotes t1 t2) = self)"
  using process_error_unchanged [of self cid oid dec onotes t1 t2]
    process_not_found [of self cid oid dec onotes t1 t2]
    process_already [of cid self _ oid dec onotes t1 t2]
    process_invalid [of dec self cid oid onotes t1 t2]
  by blast

theorem process_human_approval_error_unchanged_witness:
  "process_human_approval demo_workflow1 ''CASE_999'' ''OFFICER_123'' ''APPROVE'' None
       ''2026-01-05T11:00:00'' ''2026-01-05T11:00:01'' =
     (demo_workflow1, Inl (ApprovalNotFound ''CASE_999''))
   \<and> process_human_approval demo_workflow2 ''CASE_001'' ''OFFICER_123'' ''REJECT'' None
       ''2026-01-06T09:00:00'' ''2026-01-06T09:00:01'' =
     (demo_workflow2, Inl (AlreadyProcessed ''CASE_001'' APPROVED))
   \<and> process_human_approval demo_workflow1 ''CASE_001'' ''OFFICER_123'' ''MAYBE'' None
       ''2026-01-05T11:00:00'' ''2026-01-05T11:00:01'' =
     (demo_workflow1, Inl InvalidDecision)"
proof -
  obtain r where r: "approval_log demo_workflow2 = [r]" "approval.case_id r = ''CASE_001''"
    "approval.status r = APPROVED"
    using demo_workflow2_log by auto
  have h1: "\<forall>a \<in> set (approval_log demo_workflow1). approval.case_id a \<noteq> ''CASE_999''"
    by (simp add: demo_workflow1_log)
  note T1 = process_human_approval_error_unchanged
    [of demo_workflow1 "''CASE_999''" "''OFFICER_123''" "''APPROVE''" None
        "''2026-01-05T11:00:00''" "''2026-01-05T11:00:01''"]
  note a = T1 [THEN conjunct2, THEN conjunct1, THEN mp, OF h1]
  have h2: "find_first (\<lambda>a. approval.case_id a = ''CASE_001'') (approval_log demo_workflow2) = Some 0
          \<and> approval.status (approval_log demo_workflow2 ! 0) \<noteq> PENDING_APPROVAL"
    using r by simp
  note T2 = process_human_approval_error_unchanged
    [of demo_workflow2 "''CASE_001''" "''OFFICER_123''" "''REJECT''" None
        "''2026-01-06T09:00:00''" "''2026-01-06T09:00:01''"]
  note b = T2 [THEN conjunct2, THEN conjunct2, THEN conjunct1, THEN spec, THEN mp, OF h2]
  have h3: "''MAYBE'' \<noteq> ''APPROVE'' \<and> ''MAYBE'' \<noteq> ''REJECT''" by simp
  note T3 = process_human_approval_error_unchanged
    [of demo_workflow1 "''CASE_001''" "''OFFICER_123''" "''MAYBE''" None
        "''2026-01-05T11:00:00''" "''2026-01-05T11:00:01''"]
  note c3 = T3 [THEN conjunct2, THEN conjunct2, THEN conjunct2, THEN mp, OF h3]
  from c3 obtain e where e: "snd (process_human_approval demo_workflow1 ''CASE_001''
      ''OFFICER_123'' ''MAYBE'' None ''2026-01-05T11:00:00'' ''2026-01-05T11:00:01'') = Inl e"
    by (auto simp: isl_def)
  have "e = InvalidDecision"
    using e by (simp add: process_human_approval_def demo_workflow1_log Let_def)
  with e c3 have c: "process_human_approval demo_workflow1 ''CASE_001'' ''OFFICER_123'' ''MAYBE'' None
       ''2026-01-05T11:00:00'' ''2026-01-05T11:00:01'' = (demo_workflow1, Inl InvalidDecision)"
    by (metis prod.collapse)
  from a b c r show ?thesis by simp
qed

end
